theory Spec2Isabelle
  imports Main "HOL-Library.Word"
begin

unbundle bit_operations_syntax

section \<open>Shared data model\<close>

type_synonym byte = "8 word"

text \<open>
  An \<open>io.Reader\<close> is modelled by the bytes it still delivers until it stops (at end of
  stream or at a read failure). The code only ever reads such a value from its start.
\<close>

type_synonym reader = "byte list"

text \<open>
  The error values. \<open>errSourceNil\<close> and \<open>errFormatMismatch\<close> are the two error
  variables of the reader; \<open>ErrResourceDoesNotExist\<close> is \<open>resource.ErrResourceDoesNotExist\<close>;
  \<open>ErrBlockIndexWrong\<close>, \<open>ErrWrongNumberOfBlocks\<close> and \<open>ErrNoBlocksAvailable\<close> are the
  errors made with \<open>fmt.Errorf\<close> (block index wrong, with index and count; simple
  resource with the wrong number of blocks; no blocks available); \<open>ErrEOF\<close> and \<open>ErrUnexpectedEOF\<close> are the errors of a short read;
  \<open>ErrOther\<close> stands for errors that originate in collaborators (a foreign block
  provider, the compression transform, a writer).
\<close>

datatype error =
    errSourceNil
  | errFormatMismatch
  | ErrResourceDoesNotExist "16 word"
  | ErrBlockIndexWrong int int
  | ErrWrongNumberOfBlocks "16 word"
  | ErrNoBlocksAvailable
  | ErrEOF
  | ErrUnexpectedEOF
  | ErrOther nat

text \<open>
  Modelled from the spec: the interface \<open>resource.BlockProvider\<close> is declared outside the
  sources, and so is the type \<open>blockReader\<close> with which the reader implements it (the
  sources show its fields \<open>blockCount\<close> and \<open>blockFunc\<close>). A block provider has a block
  count and a per-index block retrieval that yields either an error or a fresh reader.
  An implementation may keep private state between calls (the compound reader below
  keeps its decompressed payload), so the provider carries a state \<open>'s\<close> and \<open>blockFunc\<close>
  returns the new one. Go's \<open>int\<close> is modelled by \<open>int\<close>: the code only compares indices
  and counts.
\<close>

record 's BlockProvider =
  blockCount :: int
  blockFunc :: "int \<Rightarrow> 's \<Rightarrow> (error + reader) \<times> 's"
  blockState :: 's

text \<open>
  \<open>resource.Resource\<close>: three metadata fields and the block provider, an interface value
  that may be nil (\<open>None\<close>). \<open>BlockCount()\<close> is 0 without a provider and \<open>Block(index)\<close>
  fails without one; otherwise both ask the provider.
\<close>

record 's Resource =
  Compound :: bool
  ContentType :: byte
  Compressed :: bool
  BlockProvider :: "'s BlockProvider option"

definition BlockCount :: "'s Resource \<Rightarrow> int" where
  "BlockCount res =
     (case BlockProvider res of None \<Rightarrow> 0 | Some provider \<Rightarrow> blockCount provider)"

definition Block :: "'s Resource \<Rightarrow> int \<Rightarrow> (error + reader) \<times> 's Resource" where
  "Block res index =
     (case BlockProvider res of
        None \<Rightarrow> (Inl ErrNoBlocksAvailable, res)
      | Some provider \<Rightarrow>
          (case blockFunc provider index (blockState provider) of
             (result, s) \<Rightarrow>
               (result, res\<lparr>BlockProvider := Some (provider\<lparr>blockState := s\<rparr>)\<rparr>)))"

text \<open>
  \<open>tempReader.Read(buf[:])\<close> with a buffer of one byte: the number of bytes read is 1
  when the reader delivers a byte and 0 otherwise. The value of the byte is not looked at.
\<close>

definition Read1 :: "reader \<Rightarrow> nat" where
  "Read1 r = (if r = [] then 0 else 1)"

section \<open>The overlay merge engine (\<open>resourceListMerger\<close>)\<close>

text \<open>
  The merger holds the ordered list of layers (index 0 is the lowest priority). The
  three metadata accessors index the list at 0, which panics in Go on an empty list:
  \<open>None\<close> is the panic.
\<close>

definition merger_Compound :: "'s Resource list \<Rightarrow> bool option" where
  "merger_Compound view = (if view = [] then None else Some (Compound (view ! 0)))"

definition merger_ContentType :: "'s Resource list \<Rightarrow> byte option" where
  "merger_ContentType view = (if view = [] then None else Some (ContentType (view ! 0)))"

definition merger_Compressed :: "'s Resource list \<Rightarrow> bool option" where
  "merger_Compressed view = (if view = [] then None else Some (Compressed (view ! 0)))"

fun BlockCount_loop :: "'s Resource list \<Rightarrow> int \<Rightarrow> int" where
  "BlockCount_loop [] mx = mx"
| "BlockCount_loop (layer # rest) mx =
     (let count = BlockCount layer
      in BlockCount_loop rest (if mx < count then count else mx))"

definition merger_BlockCount :: "'s Resource list \<Rightarrow> int" where
  "merger_BlockCount view = BlockCount_loop view 0"

text \<open>
  \<open>Block(index)\<close> of the merger. The Go loop runs \<open>layer\<close> from \<open>len(list) - 1\<close> down
  to 0 while \<open>reader == nil\<close>; the second argument of \<open>Block_loop\<close> is \<open>layer + 1\<close>.
  The named results \<open>(reader, err)\<close> are the accumulator; both start as nil. The
  layers are returned too, since every call of a layer's \<open>Block\<close> may change its state.
\<close>

fun Block_loop ::
  "'s Resource list \<Rightarrow> nat \<Rightarrow> int \<Rightarrow> reader option \<times> error option
     \<Rightarrow> (reader option \<times> error option) \<times> 's Resource list" where
  "Block_loop view 0 index (reader, err) = ((reader, err), view)"
| "Block_loop view (Suc layer) index (reader, err) =
     (if reader \<noteq> None then ((reader, err), view)
      else
        (case Block (view ! layer) index of
           (Inl tempErr, l1) \<Rightarrow> Block_loop (view[layer := l1]) layer index (reader, err)
         | (Inr tempReader, l1) \<Rightarrow>
             if Read1 tempReader = 1 then
               (case Block l1 index of
                  (Inl e, l2) \<Rightarrow> Block_loop (view[layer := l2]) layer index (None, Some e)
                | (Inr r, l2) \<Rightarrow> Block_loop (view[layer := l2]) layer index (Some r, None))
             else Block_loop (view[layer := l1]) layer index (reader, err)))"

definition merger_Block ::
  "'s Resource list \<Rightarrow> int \<Rightarrow> (reader option \<times> error option) \<times> 's Resource list" where
  "merger_Block view index = Block_loop view (length view) index (None, None)"

section \<open>The archive reader (\<open>lgres.Reader\<close>)\<close>

subsection \<open>Collaborators\<close>

text \<open>
  \<open>io.NewSectionReader(r, off, n)\<close> over a source with the bytes \<open>data\<close>: the reader
  delivers the bytes of \<open>data\<close> at the positions \<open>off \<le> i < off + n\<close> that exist. A
  negative offset or a length that is not positive delivers nothing (offsets and lengths
  are signed 64-bit values in Go; the values the code passes are differences and
  conversions of 32-bit values, which fit).
\<close>

definition NewSectionReader :: "byte list \<Rightarrow> int \<Rightarrow> int \<Rightarrow> reader" where
  "NewSectionReader data off n =
     (if off < 0 \<or> n \<le> 0 then [] else take (nat n) (drop (nat off) data))"

text \<open>
  Modelled from the spec: \<open>serial.Decoder\<close> is not part of the sources. It reads
  little-endian values from a reader and remembers the first error; once an error has
  happened every later \<open>Code\<close> call does nothing and leaves its variable untouched
  (zero, for a fresh variable). A read of \<open>n\<close> bytes from a shorter stream fails with
  end-of-file when the stream is empty and with unexpected end-of-file otherwise.
\<close>

record Decoder =
  remaining :: "byte list"
  firstError :: "error option"

definition NewDecoder :: "reader \<Rightarrow> Decoder" where
  "NewDecoder r = \<lparr>remaining = r, firstError = None\<rparr>"

definition Code_raw :: "nat \<Rightarrow> Decoder \<Rightarrow> byte list option \<times> Decoder" where
  "Code_raw n coder =
     (if firstError coder \<noteq> None then (None, coder)
      else if n \<le> length (remaining coder)
      then (Some (take n (remaining coder)), coder\<lparr>remaining := drop n (remaining coder)\<rparr>)
      else (None, coder\<lparr>remaining := [],
              firstError := Some (if remaining coder = [] then ErrEOF else ErrUnexpectedEOF)\<rparr>))"

fun le_value :: "byte list \<Rightarrow> nat" where
  "le_value [] = 0"
| "le_value (b # bs) = unat b + 256 * le_value bs"

definition Code_bytes :: "nat \<Rightarrow> Decoder \<Rightarrow> byte list \<times> Decoder" where
  "Code_bytes n coder =
     (case Code_raw n coder of
        (None, coder') \<Rightarrow> (replicate n 0, coder')
      | (Some bs, coder') \<Rightarrow> (bs, coder'))"

definition Code_uint16 :: "Decoder \<Rightarrow> 16 word \<times> Decoder" where
  "Code_uint16 coder =
     (case Code_raw 2 coder of
        (None, coder') \<Rightarrow> (0, coder')
      | (Some bs, coder') \<Rightarrow> (of_nat (le_value bs), coder'))"

definition Code_uint32 :: "Decoder \<Rightarrow> 32 word \<times> Decoder" where
  "Code_uint32 coder =
     (case Code_raw 4 coder of
        (None, coder') \<Rightarrow> (0, coder')
      | (Some bs, coder') \<Rightarrow> (of_nat (le_value bs), coder'))"

text \<open>
  Modelled from the spec: the directory entry type is declared outside the sources. The
  fields other than \<open>ID\<close> hold what the accessor methods \<open>packedLength()\<close>,
  \<open>unpackedLength()\<close>, \<open>resourceType()\<close> and \<open>contentType()\<close> return.
\<close>

record resourceDirectoryEntry =
  ID :: "16 word"
  packedLength :: "32 word"
  unpackedLength :: "32 word"
  resourceType :: byte
  contentType :: byte

record resourceDirectoryHeader =
  ResourceCount :: nat
  FirstResourceOffset :: "32 word"

text \<open>
  Modelled from the spec: the constants of the wire format and the layout of the two
  directory structures are declared outside the sources and the spec gives no values
  for them, so they are parameters. \<open>dirHeaderSize\<close> and \<open>dirEntrySize\<close> are the
  sizes \<open>binary.Size\<close> reports; \<open>decodeDirHeader\<close> and \<open>decodeDirEntry\<close> decode that
  many bytes.
\<close>

record format =
  headerString :: "byte list"
  commentTerminator :: byte
  resourceDirectoryFileOffsetPos :: nat
  boundarySize :: "32 word"
  resourceTypeFlagCompressed :: byte
  resourceTypeFlagCompound :: byte
  dirHeaderSize :: nat
  decodeDirHeader :: "byte list \<Rightarrow> resourceDirectoryHeader"
  dirEntrySize :: nat
  decodeDirEntry :: "byte list \<Rightarrow> resourceDirectoryEntry"

text \<open>
  Modelled from the spec: the compression transform is an opaque collaborator. A
  decompressor reads a byte stream sequentially; it delivers some bytes and then ends,
  either regularly or with an error, having consumed a part of its input. Its result is
  the stream it delivers and the rest of the input it has left unread.
\<close>

type_synonym stream = "byte list \<times> error option"

type_synonym decompressor = "byte list \<Rightarrow> stream \<times> byte list"

text \<open>\<open>ioutil.ReadAll\<close> of a stream: all its bytes, or the error it ended with.\<close>

definition ReadAll :: "stream \<Rightarrow> error + byte list" where
  "ReadAll str = (case snd str of None \<Rightarrow> Inr (fst str) | Some e \<Rightarrow> Inl e)"

subsection \<open>The reader\<close>

text \<open>
  The cache maps an identifier to a pointer to the decoded resource. Pointers are
  positions in the heap of allocated resources, which the functions take and return.

  The private state of a block provider of this package is what the block function of a
  compound resource closes over and changes: the variable \<open>uncompressedReader\<close>
  (\<open>None\<close> is nil), and the read position of \<open>rawBlockDataReader\<close>, kept as the bytes
  that reader still delivers when it is read sequentially.
\<close>

type_synonym resource_ptr = nat

record blockReaderState =
  uncompressedReader :: "byte list option"
  rawBlockDataReader :: "byte list"

type_synonym lgres_Resource = "blockReaderState Resource"

record Reader =
  source :: "byte list"
  firstResourceOffset :: "32 word"
  directory :: "resourceDirectoryEntry list"
  cache :: "16 word \<rightharpoonup> resource_ptr"

text \<open>
  \<open>readAndVerifyHeader\<close> compares \<open>data[:len(expected)]\<close> with the expected bytes. The
  slice expression needs \<open>len(expected)\<close> to be at most the length of \<open>data\<close>, which the
  constants of the format guarantee; \<open>take\<close> is that slice under this condition.
\<close>

definition readAndVerifyHeader :: "format \<Rightarrow> reader \<Rightarrow> 32 word \<times> error option" where
  "readAndVerifyHeader fmt src =
     (let coder = NewDecoder src;
          (data, coder) = Code_bytes (resourceDirectoryFileOffsetPos fmt) coder;
          (dirOffset, coder) = Code_uint32 coder;
          expected = headerString fmt @ [commentTerminator fmt]
      in if take (length expected) data \<noteq> expected then (0, Some errFormatMismatch)
         else (dirOffset, firstError coder))"

text \<open>
  \<open>readDirectoryAt\<close> decodes the directory header and then the whole entry list with one
  \<open>Code\<close> call each. A list whose decoding fails is returned as it was made (all
  entries zero), together with the error.
\<close>

definition zeroEntry :: resourceDirectoryEntry where
  "zeroEntry = \<lparr>ID = 0, packedLength = 0, unpackedLength = 0, resourceType = 0, contentType = 0\<rparr>"

fun chunks :: "nat \<Rightarrow> nat \<Rightarrow> byte list \<Rightarrow> byte list list" where
  "chunks sz 0 bs = []"
| "chunks sz (Suc n) bs = take sz bs # chunks sz n (drop sz bs)"

definition readDirectoryAt ::
  "format \<Rightarrow> 32 word \<Rightarrow> byte list
     \<Rightarrow> 32 word \<times> resourceDirectoryEntry list \<times> error option" where
  "readDirectoryAt fmt dirOffset src =
     (let headerSize = dirHeaderSize fmt
      in case Code_raw headerSize
                (NewDecoder (NewSectionReader src (uint dirOffset) (int headerSize))) of
           (None, headerCoder) \<Rightarrow> (0, [], firstError headerCoder)
         | (Some headerBytes, headerCoder) \<Rightarrow>
             (let header = decodeDirHeader fmt headerBytes;
                  count = ResourceCount header;
                  zeroed = replicate count zeroEntry
              in if count > 0 then
                   (case Code_raw (count * dirEntrySize fmt)
                           (NewDecoder (NewSectionReader src (uint dirOffset + int headerSize)
                              (int (count * dirEntrySize fmt)))) of
                      (None, listCoder) \<Rightarrow>
                        (FirstResourceOffset header, zeroed, firstError listCoder)
                    | (Some listBytes, listCoder) \<Rightarrow>
                        (FirstResourceOffset header,
                         map (decodeDirEntry fmt) (chunks (dirEntrySize fmt) count listBytes),
                         firstError listCoder))
                 else (FirstResourceOffset header, zeroed, None)))"

definition ReaderFrom :: "format \<Rightarrow> byte list option \<Rightarrow> Reader option \<times> error option" where
  "ReaderFrom fmt src =
     (case src of
        None \<Rightarrow> (None, Some errSourceNil)
      | Some bytes \<Rightarrow>
          (case readAndVerifyHeader fmt
                  (NewSectionReader bytes 0 (int (resourceDirectoryFileOffsetPos fmt) + 4)) of
             (dirOffset, Some err) \<Rightarrow> (None, Some err)
           | (dirOffset, None) \<Rightarrow>
               (case readDirectoryAt fmt dirOffset bytes of
                  (firstOffset, dir, Some err) \<Rightarrow> (None, Some err)
                | (firstOffset, dir, None) \<Rightarrow>
                    (Some \<lparr>source = bytes, firstResourceOffset = firstOffset,
                           directory = dir, cache = Map.empty\<rparr>, None))))"

definition IDs :: "Reader \<Rightarrow> 16 word list" where
  "IDs reader = map ID (directory reader)"

text \<open>
  \<open>findEntry\<close>: the loop visits the directory in order and stops at the first entry
  with the identifier. The offsets are unsigned 32-bit values, so the additions wrap.
\<close>

fun findEntry_loop ::
  "32 word \<Rightarrow> 16 word \<Rightarrow> resourceDirectoryEntry list \<Rightarrow> 32 word
     \<Rightarrow> 32 word \<times> resourceDirectoryEntry option" where
  "findEntry_loop boundary ident [] startOffset = (startOffset, None)"
| "findEntry_loop boundary ident (cur # rest) startOffset =
     (if ID cur = ident then (startOffset, Some cur)
      else
        (let startOffset = startOffset + packedLength cur;
             startOffset = startOffset + (boundary - (startOffset mod boundary)) mod boundary
         in findEntry_loop boundary ident rest startOffset))"

definition findEntry :: "format \<Rightarrow> Reader \<Rightarrow> 16 word \<Rightarrow> 32 word \<times> resourceDirectoryEntry option" where
  "findEntry fmt reader ident =
     findEntry_loop (boundarySize fmt) ident (directory reader) (firstResourceOffset reader)"

record blockListEntry =
  start :: "32 word"
  size_entry :: "32 word"

fun readBlockList_loop ::
  "nat \<Rightarrow> 32 word \<Rightarrow> Decoder \<Rightarrow> blockListEntry list \<times> Decoder" where
  "readBlockList_loop 0 lastBlockEndOffset listDecoder = ([], listDecoder)"
| "readBlockList_loop (Suc n) lastBlockEndOffset listDecoder =
     (let (endOffset, listDecoder) = Code_uint32 listDecoder;
          entry = \<lparr>start = lastBlockEndOffset, size_entry = endOffset - lastBlockEndOffset\<rparr>;
          (entries, listDecoder) = readBlockList_loop n endOffset listDecoder
      in (entry # entries, listDecoder))"

definition readBlockList :: "reader \<Rightarrow> 32 word \<times> blockListEntry list \<times> error option" where
  "readBlockList src =
     (let listDecoder = NewDecoder src;
          (blockCount, listDecoder) = Code_uint16 listDecoder;
          (firstBlockOffset, listDecoder) = Code_uint32 listDecoder;
          (blockList, listDecoder) = readBlockList_loop (unat blockCount) firstBlockOffset listDecoder
      in (firstBlockOffset, blockList, firstError listDecoder))"

text \<open>
  The block function of a compound resource. For an uncompressed resource
  \<open>uncompressedReader\<close> is the raw payload reader from the start. For a compressed one it
  is nil until a call inside the range has decompressed the payload: that call reads
  \<open>rawBlockDataReader\<close> sequentially through a new decompressor, which moves the read
  position whether the decompression succeeds or fails. The block is then served as
  a section of \<open>uncompressedReader\<close> (\<open>sectionOfBlock\<close>), which is read by position.
  A nil \<open>uncompressedReader\<close> for a resource that is not compressed is not reachable
  from \<open>newCompoundResourceReader\<close>; \<open>sectionOfBlock\<close> is empty there.
\<close>

definition sectionOfBlock ::
  "32 word \<Rightarrow> blockListEntry list \<Rightarrow> int \<Rightarrow> byte list option \<Rightarrow> reader" where
  "sectionOfBlock firstBlockOffset blockList index uncompressed =
     (case uncompressed of
        Some bytes \<Rightarrow>
          (let entry = blockList ! nat index
           in NewSectionReader bytes (uint (start entry) - uint firstBlockOffset)
                (uint (size_entry entry)))
      | None \<Rightarrow> [])"

definition compound_blockFunc ::
  "decompressor \<Rightarrow> bool \<Rightarrow> 32 word \<Rightarrow> blockListEntry list
     \<Rightarrow> int \<Rightarrow> blockReaderState \<Rightarrow> (error + reader) \<times> blockReaderState" where
  "compound_blockFunc decompress compressed firstBlockOffset blockList index st =
     (if index < 0 \<or> index \<ge> int (length blockList)
      then (Inl (ErrBlockIndexWrong index (int (length blockList))), st)
      else if compressed \<and> uncompressedReader st = None
      then
        (case decompress (rawBlockDataReader st) of
           (decompressor, unread) \<Rightarrow>
             (case ReadAll decompressor of
                Inl err \<Rightarrow> (Inl err, st\<lparr>rawBlockDataReader := unread\<rparr>)
              | Inr decompressedData \<Rightarrow>
                  (Inr (sectionOfBlock firstBlockOffset blockList index (Some decompressedData)),
                   \<lparr>uncompressedReader = Some decompressedData, rawBlockDataReader = unread\<rparr>)))
      else (Inr (sectionOfBlock firstBlockOffset blockList index (uncompressedReader st)), st))"

definition newCompoundResourceReader ::
  "decompressor \<Rightarrow> Reader \<Rightarrow> resourceDirectoryEntry \<Rightarrow> byte \<Rightarrow> bool \<Rightarrow> 32 word
     \<Rightarrow> error + lgres_Resource" where
  "newCompoundResourceReader decompress reader entry ctype compressed resourceStartOffset =
     (let resourceDataReader =
            NewSectionReader (source reader) (uint resourceStartOffset) (uint (packedLength entry))
      in case readBlockList resourceDataReader of
           (firstBlockOffset, blockList, Some err) \<Rightarrow> Inl err
         | (firstBlockOffset, blockList, None) \<Rightarrow>
             (let rawBlockData =
                    NewSectionReader resourceDataReader (uint firstBlockOffset)
                      (uint (packedLength entry) - uint firstBlockOffset)
              in Inr \<lparr>Compound = True, ContentType = ctype, Compressed = compressed,
                      BlockProvider = Some \<lparr>blockCount = int (length blockList),
                      blockFunc = compound_blockFunc decompress compressed firstBlockOffset blockList,
                      blockState =
                        \<lparr>uncompressedReader = (if \<not> compressed then Some rawBlockData else None),
                         rawBlockDataReader = rawBlockData\<rparr>\<rparr>\<rparr>))"

text \<open>
  The block function of a simple resource; \<open>io.LimitReader(r, n)\<close> delivers the first
  \<open>n\<close> bytes of \<open>r\<close>. Every call reads the source through a new section reader, so the
  function has no state of its own.
\<close>

definition single_blockFunc ::
  "decompressor \<Rightarrow> Reader \<Rightarrow> resourceDirectoryEntry \<Rightarrow> bool \<Rightarrow> 32 word
     \<Rightarrow> int \<Rightarrow> blockReaderState \<Rightarrow> (error + reader) \<times> blockReaderState" where
  "single_blockFunc decompress reader entry compressed resourceStartOffset index st =
     (if index \<noteq> 0 then (Inl (ErrBlockIndexWrong index 1), st)
      else
        (let resourceSource =
               NewSectionReader (source reader) (uint resourceStartOffset) (uint (packedLength entry))
         in if compressed
            then (Inr (take (unat (unpackedLength entry)) (fst (fst (decompress resourceSource)))), st)
            else (Inr (take (unat (packedLength entry)) resourceSource), st)))"

definition newSingleBlockResourceReader ::
  "decompressor \<Rightarrow> Reader \<Rightarrow> resourceDirectoryEntry \<Rightarrow> byte \<Rightarrow> bool \<Rightarrow> 32 word
     \<Rightarrow> error + lgres_Resource" where
  "newSingleBlockResourceReader decompress reader entry ctype compressed resourceStartOffset =
     Inr \<lparr>Compound = False, ContentType = ctype, Compressed = compressed,
          BlockProvider = Some \<lparr>blockCount = 1,
          blockFunc = single_blockFunc decompress reader entry compressed resourceStartOffset,
          blockState = \<lparr>uncompressedReader = None, rawBlockDataReader = []\<rparr>\<rparr>\<rparr>"

text \<open>
  \<open>Reader.Resource(id)\<close>. A newly decoded resource is allocated at the end of the heap.
\<close>

definition Reader_Resource ::
  "format \<Rightarrow> decompressor \<Rightarrow> 16 word \<Rightarrow> Reader \<times> lgres_Resource list
     \<Rightarrow> (resource_ptr option \<times> error option) \<times> Reader \<times> lgres_Resource list" where
  "Reader_Resource fmt decompress ident st =
     (case st of (reader, heap) \<Rightarrow>
        (case cache reader ident of
           Some cachedResource \<Rightarrow> ((Some cachedResource, None), reader, heap)
         | None \<Rightarrow>
             (case findEntry fmt reader ident of
                (resourceStartOffset, None) \<Rightarrow>
                  ((None, Some (ErrResourceDoesNotExist ident)), reader, heap)
              | (resourceStartOffset, Some entry) \<Rightarrow>
                  (let rtype = resourceType entry;
                       compressed = (rtype AND resourceTypeFlagCompressed fmt \<noteq> 0);
                       compound = (rtype AND resourceTypeFlagCompound fmt \<noteq> 0);
                       ctype = contentType entry
                   in case (if compound
                            then newCompoundResourceReader decompress reader entry ctype
                                   compressed resourceStartOffset
                            else newSingleBlockResourceReader decompress reader entry ctype
                                   compressed resourceStartOffset) of
                        Inl err \<Rightarrow> ((None, Some err), reader, heap)
                      | Inr retrievedResource \<Rightarrow>
                          ((Some (length heap), None),
                           reader\<lparr>cache := (cache reader)(ident \<mapsto> length heap)\<rparr>,
                           heap @ [retrievedResource])))))"

section \<open>The convenience function \<open>Write\<close>\<close>

text \<open>
  Modelled from the spec: the \<open>Writer\<close> of the package and the provider interface are
  declared outside the sources, so their operations are parameters. The writer,
  together with its target and the sinks it hands out, is a state \<open>'w\<close>; every operation
  takes and returns it. \<open>CreateResource\<close> and \<open>CreateCompoundResource\<close> may fail;
  \<open>CreateBlock\<close> starts the next block of the compound resource being written;
  \<open>Copy\<close> is \<open>io.Copy\<close> of a block's bytes into the current sink.
\<close>

record 'w writer_ops =
  NewWriter :: "'w \<Rightarrow> error option \<times> 'w"
  CreateResource :: "16 word \<Rightarrow> byte \<Rightarrow> bool \<Rightarrow> 'w \<Rightarrow> error option \<times> 'w"
  CreateCompoundResource :: "16 word \<Rightarrow> byte \<Rightarrow> bool \<Rightarrow> 'w \<Rightarrow> error option \<times> 'w"
  CreateBlock :: "'w \<Rightarrow> 'w"
  Copy :: "reader \<Rightarrow> 'w \<Rightarrow> error option \<times> 'w"
  Finish :: "'w \<Rightarrow> error option \<times> 'w"

text \<open>
  A \<open>resource.Provider\<close>: the list of identifiers and the lookup of a resource, both
  on a provider state \<open>'p\<close> (a reader's cache, for instance).
\<close>

record ('p, 's) Provider =
  provider_IDs :: "'p \<Rightarrow> 16 word list"
  provider_Resource :: "16 word \<Rightarrow> 'p \<Rightarrow> (error + 's Resource) \<times> 'p"

text \<open>
  \<open>copyBlocks\<close>: the loop over the block indices. \<open>nextWriter\<close> selects the sink of the
  next block, and is called before the copy. The state of the block provider is
  threaded through the calls of \<open>Block\<close>.
\<close>

function copyBlocks_loop ::
  "('w \<Rightarrow> 'w) \<Rightarrow> (reader \<Rightarrow> 'w \<Rightarrow> error option \<times> 'w) \<Rightarrow> int \<Rightarrow> 's Resource \<Rightarrow> 'w
     \<Rightarrow> error option \<times> 's Resource \<times> 'w" where
  "copyBlocks_loop nextWriter copy blockIndex src wr =
     (if blockIndex < BlockCount src then
        (case Block src blockIndex of
           (Inl blockErr, src') \<Rightarrow> (Some blockErr, src', wr)
         | (Inr blockReader, src') \<Rightarrow>
             (case copy blockReader (nextWriter wr) of
                (Some copyErr, wr') \<Rightarrow> (Some copyErr, src', wr')
              | (None, wr') \<Rightarrow> copyBlocks_loop nextWriter copy (blockIndex + 1) src' wr'))
      else (None, src, wr))"
  by pat_completeness auto
termination
  apply (relation "measure (\<lambda>(nextWriter, copy, blockIndex, src, wr).
                     nat (BlockCount src - blockIndex))")
   apply simp
  apply (auto simp: Block_def BlockCount_def split: prod.splits option.splits)
  done

definition copyBlocks ::
  "'s Resource \<Rightarrow> ('w \<Rightarrow> 'w) \<Rightarrow> (reader \<Rightarrow> 'w \<Rightarrow> error option \<times> 'w) \<Rightarrow> 'w
     \<Rightarrow> error option \<times> 's Resource \<times> 'w" where
  "copyBlocks src nextWriter copy wr = copyBlocks_loop nextWriter copy 0 src wr"

text \<open>
  The loop of \<open>Write\<close> over the identifiers. Every \<open>return\<close> inside the loop returns an
  error, so the result \<open>None\<close> means that the loop ran to its end.
\<close>

fun Write_loop ::
  "'w writer_ops \<Rightarrow> ('p, 's) Provider \<Rightarrow> 16 word list \<Rightarrow> 'p \<Rightarrow> 'w
     \<Rightarrow> error option \<times> 'p \<times> 'w" where
  "Write_loop ops src [] p wr = (None, p, wr)"
| "Write_loop ops src (ident # rest) p wr =
     (case provider_Resource src ident p of
        (Inl resourceErr, p') \<Rightarrow> (Some resourceErr, p', wr)
      | (Inr entry, p') \<Rightarrow>
          if Compound entry then
            (case CreateCompoundResource ops ident (ContentType entry) (Compressed entry) wr of
               (Some resourceWriterErr, wr') \<Rightarrow> (Some resourceWriterErr, p', wr')
             | (None, wr') \<Rightarrow>
                 (case copyBlocks entry (CreateBlock ops) (Copy ops) wr' of
                    (Some copyErr, entry', wr'') \<Rightarrow> (Some copyErr, p', wr'')
                  | (None, entry', wr'') \<Rightarrow> Write_loop ops src rest p' wr''))
          else if BlockCount entry = 1 then
            (case CreateResource ops ident (ContentType entry) (Compressed entry) wr of
               (Some resourceWriterErr, wr') \<Rightarrow> (Some resourceWriterErr, p', wr')
             | (None, wr') \<Rightarrow>
                 (case copyBlocks entry (\<lambda>blockWriter. blockWriter) (Copy ops) wr' of
                    (Some copyErr, entry', wr'') \<Rightarrow> (Some copyErr, p', wr'')
                  | (None, entry', wr'') \<Rightarrow> Write_loop ops src rest p' wr''))
          else (Some (ErrWrongNumberOfBlocks ident), p', wr))"

definition Write ::
  "'w writer_ops \<Rightarrow> ('p, 's) Provider \<Rightarrow> 'w \<Rightarrow> 'p \<Rightarrow> error option \<times> 'p \<times> 'w" where
  "Write ops src target p =
     (case NewWriter ops target of
        (Some writerErr, wr) \<Rightarrow> (Some writerErr, p, wr)
      | (None, wr) \<Rightarrow>
          (case Write_loop ops src (provider_IDs src p) p wr of
             (Some err, p', wr') \<Rightarrow> (Some err, p', wr')
           | (None, p', wr') \<Rightarrow>
               (case Finish ops wr' of (err, wr'') \<Rightarrow> (err, p', wr''))))"

section \<open>Notions used to state the properties\<close>


definition inState :: "'s Resource \<Rightarrow> 's \<Rightarrow> 's Resource" where
  "inState res st =
     res\<lparr>BlockProvider := map_option (\<lambda>provider. provider\<lparr>blockState := st\<rparr>) (BlockProvider res)\<rparr>"



text \<open>
  Rounding \<open>x\<close> up to the next multiple of the boundary, with the expression
  \<open>findEntry\<close> uses, in 32-bit arithmetic.
\<close>

definition alignUp :: "32 word \<Rightarrow> 32 word \<Rightarrow> 32 word" where
  "alignUp boundary x = x + (boundary - (x mod boundary)) mod boundary"

text \<open>
  The layout of an archive is aligned when the boundary divides \<open>2 ^ 32\<close> (it is a power
  of two, so that wrapping keeps multiples) and the first resource starts on a multiple
  of the boundary.
\<close>

definition aligned_layout :: "format \<Rightarrow> Reader \<Rightarrow> bool" where
  "aligned_layout fmt reader =
     (unat (boundarySize fmt) dvd 2 ^ 32
      \<and> unat (boundarySize fmt) dvd unat (firstResourceOffset reader))"

text \<open>The cache of a reader only holds identifiers of its directory.\<close>

definition cache_ok :: "Reader \<Rightarrow> bool" where
  "cache_ok reader = (dom (cache reader) \<subseteq> ID ` set (directory reader))"

text \<open>
  The magic string and the terminator fit into the header region. (Otherwise the slice
  expression \<open>data[:len(expected)]\<close> of \<open>readAndVerifyHeader\<close> would panic.)
\<close>

definition format_ok :: "format \<Rightarrow> bool" where
  "format_ok fmt = (length (headerString fmt) + 1 \<le> resourceDirectoryFileOffsetPos fmt)"

text \<open>
  The directory of an archive with the bytes \<open>bytes\<close>, in the words of the
  specification: the header region ends with the little-endian 32-bit directory offset;
  at that offset stands the directory header, which holds the first resource offset and
  the resource count, and after it the array of that many fixed-size entries.
  \<open>directoryEnd\<close> is the position after the last entry.
\<close>

definition directoryOffset :: "format \<Rightarrow> byte list \<Rightarrow> 32 word" where
  "directoryOffset fmt bytes =
     of_nat (le_value (take 4 (drop (resourceDirectoryFileOffsetPos fmt) bytes)))"

definition directoryHeader :: "format \<Rightarrow> byte list \<Rightarrow> resourceDirectoryHeader" where
  "directoryHeader fmt bytes =
     decodeDirHeader fmt (take (dirHeaderSize fmt) (drop (unat (directoryOffset fmt bytes)) bytes))"

definition directoryEntries :: "format \<Rightarrow> byte list \<Rightarrow> resourceDirectoryEntry list" where
  "directoryEntries fmt bytes =
     (let count = ResourceCount (directoryHeader fmt bytes)
      in map (decodeDirEntry fmt)
           (chunks (dirEntrySize fmt) count
              (take (count * dirEntrySize fmt)
                 (drop (unat (directoryOffset fmt bytes) + dirHeaderSize fmt) bytes))))"

definition directoryEnd :: "format \<Rightarrow> byte list \<Rightarrow> nat" where
  "directoryEnd fmt bytes =
     unat (directoryOffset fmt bytes) + dirHeaderSize fmt
       + ResourceCount (directoryHeader fmt bytes) * dirEntrySize fmt"

text \<open>
  The block table at the head of the byte window \<open>w\<close> of a compound resource, in the
  words of the specification: a 16-bit block count, the 32-bit \<open>firstBlockOffset\<close>, then
  one 32-bit cumulative end offset per block, all little-endian. Block \<open>i\<close> starts where
  block \<open>i - 1\<close> ends, and block 0 starts at \<open>firstBlockOffset\<close>.
\<close>

definition tableBlockCount :: "byte list \<Rightarrow> nat" where
  "tableBlockCount w = unat (of_nat (le_value (take 2 w)) :: 16 word)"

definition tableFirstBlockOffset :: "byte list \<Rightarrow> 32 word" where
  "tableFirstBlockOffset w = of_nat (le_value (take 4 (drop 2 w)))"




section \<open>Example data\<close>


definition memBlocks :: "bool \<Rightarrow> byte \<Rightarrow> bool \<Rightarrow> byte list list \<Rightarrow> nat Resource" where
  "memBlocks compound ctype compressed blocks =
     \<lparr>Compound = compound, ContentType = ctype, Compressed = compressed,
      BlockProvider = Some \<lparr>blockCount = int (length blocks),
      blockFunc = (\<lambda>index s.
        if index < 0 \<or> int (length blocks) \<le> index
        then (Inl (ErrBlockIndexWrong index (int (length blocks))), Suc s)
        else (Inr (blocks ! nat index), Suc s)),
      blockState = 0\<rparr>\<rparr>"

definition fadingBlocks :: "byte list list \<Rightarrow> nat Resource" where
  "fadingBlocks blocks =
     \<lparr>Compound = True, ContentType = 0, Compressed = False,
      BlockProvider = Some \<lparr>blockCount = int (length blocks),
      blockFunc = (\<lambda>index s.
        if index < 0 \<or> int (length blocks) \<le> index
        then (Inl (ErrBlockIndexWrong index (int (length blocks))), Suc s)
        else if s = 0 then (Inr (blocks ! nat index), Suc s)
        else (Inl (ErrOther 1), Suc s)),
      blockState = 0\<rparr>\<rparr>"

text \<open>
  A miniature format of the same structure. The header region is the two magic bytes,
  the terminator, one byte of padding and the directory offset. A directory header is a
  16-bit count followed by the 32-bit offset of the first resource. A directory entry is
  ten bytes: the identifier (2), the packed length (3), the type flags (1), the
  unpacked length (3) and the content type (1).
\<close>

definition exampleFormat :: format where
  "exampleFormat =
     \<lparr>headerString = [0x4C, 0x47], commentTerminator = 0x1A,
      resourceDirectoryFileOffsetPos = 4, boundarySize = 4,
      resourceTypeFlagCompressed = 1, resourceTypeFlagCompound = 2,
      dirHeaderSize = 6,
      decodeDirHeader = (\<lambda>bs. \<lparr>ResourceCount = le_value (take 2 bs),
                                FirstResourceOffset = of_nat (le_value (take 4 (drop 2 bs)))\<rparr>),
      dirEntrySize = 10,
      decodeDirEntry = (\<lambda>bs. \<lparr>ID = of_nat (le_value (take 2 bs)),
                               packedLength = of_nat (le_value (take 3 (drop 2 bs))),
                               unpackedLength = of_nat (le_value (take 3 (drop 6 bs))),
                               resourceType = bs ! 5, contentType = bs ! 9\<rparr>)\<rparr>"

text \<open>
  A toy decompressor: the input is a sequence of pairs (count, byte); a trailing single
  byte is an error. It reads all of its input.
\<close>

fun exampleStream :: "byte list \<Rightarrow> stream" where
  "exampleStream [] = ([], None)"
| "exampleStream [n] = ([], Some (ErrOther 2))"
| "exampleStream (n # b # rest) =
     (replicate (unat n) b @ fst (exampleStream rest), snd (exampleStream rest))"

definition exampleDecompress :: decompressor where
  "exampleDecompress input = (exampleStream input, [])"

text \<open>
  An archive with three resources: a simple one (identifier 1, bytes 1 1 1), an
  uncompressed compound one (identifier 2, blocks 30 30 30 30 and 31 31 31) and a
  compressed compound one (identifier 3, blocks 40 40 and 42 once decompressed).
  \<open>exampleArchive n\<close> records \<open>n\<close> as the packed length of the third resource: 18 is
  its true length, 17 cuts the compressed payload short.
\<close>

definition exampleArchive :: "byte \<Rightarrow> byte list" where
  "exampleArchive n =
     [0x4C, 0x47, 0x1A, 0, 56, 0, 0, 0,
      1, 1, 1, 0,
      2, 0, 14, 0, 0, 0, 18, 0, 0, 0, 21, 0, 0, 0, 0x30, 0x30, 0x30, 0x30, 0x31, 0x31, 0x31,
      0, 0, 0,
      2, 0, 14, 0, 0, 0, 16, 0, 0, 0, 17, 0, 0, 0, 2, 0x40, 1, 0x42,
      0, 0,
      3, 0, 8, 0, 0, 0,
      1, 0, 3, 0, 0, 0, 3, 0, 0, 1,
      2, 0, 21, 0, 0, 2, 21, 0, 0, 3,
      3, 0, n, 0, 0, 3, 3, 0, 0, 4]"

definition exampleDirectory :: "byte \<Rightarrow> resourceDirectoryEntry list" where
  "exampleDirectory n =
     [\<lparr>ID = 1, packedLength = 3, unpackedLength = 3, resourceType = 0, contentType = 1\<rparr>,
      \<lparr>ID = 2, packedLength = 21, unpackedLength = 21, resourceType = 2, contentType = 3\<rparr>,
      \<lparr>ID = 3, packedLength = ucast n, unpackedLength = 3, resourceType = 3, contentType = 4\<rparr>]"

definition exampleReader :: "byte \<Rightarrow> Reader" where
  "exampleReader n =
     \<lparr>source = exampleArchive n, firstResourceOffset = 8, directory = exampleDirectory n,
      cache = Map.empty\<rparr>"

text \<open>
  A writer that records the operations it is asked to do and never fails, and a
  provider of two resources: a simple one with one block (identifier 1) and a
  non-compound one with two blocks (identifier 2).
\<close>

datatype writer_event =
    EvCreateResource "16 word" byte bool
  | EvCreateCompoundResource "16 word" byte bool
  | EvCreateBlock
  | EvCopy "byte list"
  | EvFinish

definition recordingWriter :: "writer_event list writer_ops" where
  "recordingWriter =
     \<lparr>NewWriter = (\<lambda>wr. (None, wr)),
      CreateResource = (\<lambda>ident ctype compressed wr.
         (None, wr @ [EvCreateResource ident ctype compressed])),
      CreateCompoundResource = (\<lambda>ident ctype compressed wr.
         (None, wr @ [EvCreateCompoundResource ident ctype compressed])),
      CreateBlock = (\<lambda>wr. wr @ [EvCreateBlock]),
      Copy = (\<lambda>bytes wr. (None, wr @ [EvCopy bytes])),
      Finish = (\<lambda>wr. (None, wr @ [EvFinish]))\<rparr>"

definition exampleProvider :: "(unit, nat) Provider" where
  "exampleProvider =
     \<lparr>provider_IDs = (\<lambda>p. [1, 2]),
      provider_Resource = (\<lambda>ident p.
         if ident = 1 then (Inr (memBlocks False 7 False [ [5, 6] ]), p)
         else if ident = 2 then (Inr (memBlocks False 7 False [ [1], [2] ]), p)
         else (Inl (ErrResourceDoesNotExist ident), p))\<rparr>"

section \<open>Properties of the merge engine\<close>

lemma Block_loop_resolved:
  "Block_loop view n index (Some r, e) = ((Some r, e), view)"
  by (cases n) simp_all



lemma Block_loop_append:
  "n \<le> length lower
     \<Longrightarrow> fst (Block_loop (lower @ higher) n index acc) = fst (Block_loop lower n index acc)"
proof (induction n arbitrary: lower acc)
  case 0
  then show ?case by (cases acc) simp
next
  case (Suc n)
  obtain reader err where acc: "acc = (reader, err)" by (cases acc)
  have n: "n < length lower" using Suc.prems by simp
  have len: "n \<le> length (lower[n := l])" for l using n by simp
  have step: "fst (Block_loop ((lower @ higher)[n := l]) n index a)
                = fst (Block_loop (lower[n := l]) n index a)" for l a
    using Suc.IH [OF len] n by (simp add: list_update_append1)
  show ?case unfolding acc using n
    by (simp add: nth_append step split: prod.split sum.split)
qed

lemma Block_loop_snoc:
  "fst (Block_loop (lower @ [hi]) (length lower) index acc)
     = fst (Block_loop lower (length lower) index acc)"
  by (rule Block_loop_append) simp

lemma Block_loop_snoc_step:
  "fst (Block_loop (xs @ [h]) (Suc (length xs)) index (reader, err)) =
     (if reader \<noteq> None then (reader, err)
      else
        (case Block h index of
           (Inl tempErr, l1) \<Rightarrow> fst (Block_loop xs (length xs) index (reader, err))
         | (Inr tempReader, l1) \<Rightarrow>
             if Read1 tempReader = 1 then
               (case Block l1 index of
                  (Inl e, l2) \<Rightarrow> fst (Block_loop xs (length xs) index (None, Some e))
                | (Inr r, l2) \<Rightarrow> (Some r, None))
             else fst (Block_loop xs (length xs) index (reader, err))))"
  by (simp add: Block_loop_snoc Block_loop_resolved split: prod.split sum.split)

lemma Block_loop_drop_failing:
  "Block mid index = (Inl tempErr, l1)
     \<Longrightarrow> fst (Block_loop (lower @ mid # higher) (length (lower @ mid # higher)) index acc)
       = fst (Block_loop (lower @ higher) (length (lower @ higher)) index acc)"
proof (induction higher arbitrary: acc rule: rev_induct)
  case Nil
  obtain reader err where acc: "acc = (reader, err)" by (cases acc)
  have "fst (Block_loop (lower @ [mid]) (Suc (length lower)) index (reader, err))
          = fst (Block_loop lower (length lower) index (reader, err))"
    unfolding Block_loop_snoc_step using Nil
    by (cases reader) (simp_all add: Block_loop_resolved)
  then show ?case by (simp add: acc)
next
  case (snoc h hs)
  obtain reader err where acc: "acc = (reader, err)" by (cases acc)
  define L where "L = lower @ mid # hs"
  define R where "R = lower @ hs"
  have ih: "fst (Block_loop L (length L) index a) = fst (Block_loop R (length R) index a)" for a
    unfolding L_def R_def by (rule snoc.IH [OF snoc.prems])
  have "fst (Block_loop (L @ [h]) (Suc (length L)) index (reader, err))
          = fst (Block_loop (R @ [h]) (Suc (length R)) index (reader, err))"
    unfolding Block_loop_snoc_step ih ..
  then show ?case by (simp add: acc L_def R_def)
qed

lemma Block_loop_error_origin:
  "n \<le> length view \<Longrightarrow> fst (Block_loop view n index (rd, e0)) = (r, Some e)
     \<Longrightarrow> e0 = Some e
        \<or> (\<exists>k<n. \<exists>t l1 l2. Block (view ! k) index = (Inr t, l1) \<and> t \<noteq> []
                     \<and> Block l1 index = (Inl e, l2))"
proof (induction n arbitrary: view rd e0)
  case 0
  then show ?case by simp
next
  case (Suc n)
  have len: "n \<le> length (view[n := l])" for l using Suc.prems by simp
  have ih: "fst (Block_loop (view[n := l]) n index (rd', e')) = (r, Some e)
     \<Longrightarrow> e' = Some e
        \<or> (\<exists>k<n. \<exists>t l1 l2. Block (view ! k) index = (Inr t, l1) \<and> t \<noteq> []
                     \<and> Block l1 index = (Inl e, l2))" for l rd' e'
    using Suc.IH [OF len, of l rd' e'] by auto
  show ?case
  proof (cases rd)
    case (Some x)
    then show ?thesis using Suc.prems by simp
  next
    case None
    show ?thesis
    proof (cases "Block (view ! n) index")
      case (Pair res l1)
      show ?thesis
      proof (cases res)
        case (Inl tempErr)
        then show ?thesis using None Pair Suc.prems(2) ih [of l1 None e0]
          by (auto simp: less_Suc_eq)
      next
        case (Inr t)
        show ?thesis
        proof (cases "t = []")
          case True
          then show ?thesis using None Pair Inr Suc.prems(2) ih [of l1 None e0]
            by (auto simp: Read1_def less_Suc_eq)
        next
          case False
          show ?thesis
          proof (cases "Block l1 index")
            case (Pair res2 l2)
            show ?thesis
            proof (cases res2)
              case (Inl e')
              have "fst (Block_loop (view[n := l2]) n index (None, Some e')) = (r, Some e)"
                using None \<open>Block (view ! n) index = (res, l1)\<close> Inr False Pair Inl Suc.prems(2)
                by (simp add: Read1_def)
              from ih [OF this] show ?thesis
              proof
                assume "Some e' = Some e"
                then have "Block (view ! n) index = (Inr t, l1) \<and> t \<noteq> []
                     \<and> Block l1 index = (Inl e, l2)"
                  using \<open>Block (view ! n) index = (res, l1)\<close> Inr False Pair Inl by simp
                then show ?thesis by blast
              next
                assume "\<exists>k<n. \<exists>t l1 l2. Block (view ! k) index = (Inr t, l1) \<and> t \<noteq> []
                     \<and> Block l1 index = (Inl e, l2)"
                then show ?thesis using less_Suc_eq by blast
              qed
            next
              case (Inr r')
              have "fst (Block_loop (view[n := l2]) n index (Some r', None)) = (r, Some e)"
                using None \<open>Block (view ! n) index = (res, l1)\<close> \<open>res = Inr t\<close> False Pair Inr Suc.prems(2)
                by (simp add: Read1_def)
              then show ?thesis by (simp add: Block_loop_resolved)
            qed
          qed
        qed
      qed
    qed
  qed
qed

lemma Block_loop_not_both:
  "rd = None \<or> e0 = None
     \<Longrightarrow> fst (fst (Block_loop (view :: 's Resource list) n index (rd, e0))) = None
       \<or> snd (fst (Block_loop view n index (rd, e0))) = None"
proof (induction n arbitrary: view rd e0)
  case 0
  then show ?case by auto
next
  case (Suc n)
  show ?case
  proof (cases rd)
    case (Some x)
    then show ?thesis using Suc.prems by auto
  next
    case None
    show ?thesis unfolding None
      by (simp add: Suc.IH split: prod.split sum.split)
  qed
qed

lemma BlockCount_loop_Max:
  "BlockCount_loop view mx = Max (insert mx (BlockCount ` set view))"
proof (induction view arbitrary: mx)
  case Nil
  then show ?case by simp
next
  case (Cons layer rest)
  have upd: "(if mx < BlockCount layer then BlockCount layer else mx) = max mx (BlockCount layer)"
    by (simp add: max_def)
  have "Max (insert (max mx (BlockCount layer)) (BlockCount ` set rest))
          = Max (insert mx (insert (BlockCount layer) (BlockCount ` set rest)))"
    by (cases "set rest = {}") (simp_all add: max.assoc)
  then show ?case using Cons.IH [of "max mx (BlockCount layer)"]
    by (simp add: Let_def upd del: Max_insert)
qed

section \<open>Properties of the archive reader\<close>

subsection \<open>Offsets\<close>

lemma findEntry_loop_fold:
  "findEntry_loop b ident dir s =
     (foldl (\<lambda>s e. alignUp b (s + packedLength e)) s (takeWhile (\<lambda>e. ID e \<noteq> ident) dir),
      find (\<lambda>e. ID e = ident) dir)"
  by (induction dir arbitrary: s) (simp_all add: alignUp_def Let_def)

lemma nat_pad_dvd: "(b::nat) \<noteq> 0 \<Longrightarrow> b dvd x + (b - x mod b) mod b"
  by (metis le_add_diff_inverse mod_add_left_eq mod_add_right_eq
    mod_eq_0_iff_dvd mod_le_divisor mod_self not_gr_zero)

lemma unat_alignUp_dvd:
  fixes b x :: "32 word"
  assumes "unat b dvd 2 ^ 32"
  shows "unat b dvd unat (alignUp b x)"
proof -
  have nz: "unat b \<noteq> 0" using assms by (metis zero_neq_numeral dvd_0_left power_not_zero)
  then have b0: "0 < b" by (simp add: word_greater_zero_iff unat_eq_0)
  have le: "x mod b \<le> b"
    using b0 by (simp add: word_mod_less_divisor less_imp_le)
  have sub: "unat (b - x mod b) = unat b - unat x mod unat b"
    using le by (simp add: unat_sub unat_mod)
  have pad: "unat ((b - x mod b) mod b) = (unat b - unat x mod unat b) mod unat b"
    by (simp add: unat_mod sub)
  have "unat b dvd unat x + (unat b - unat x mod unat b) mod unat b"
    using nz by (rule nat_pad_dvd)
  then have "unat b dvd (unat x + (unat b - unat x mod unat b) mod unat b) mod 2 ^ 32"
    using assms by (simp add: dvd_mod)
  then show ?thesis
    by (simp add: alignUp_def unat_word_ariths(1) pad)
qed

lemma mod_add_aligned:
  fixes b s p :: "32 word"
  assumes "unat b dvd 2 ^ 32" and "unat b dvd unat s"
  shows "(s + p) mod b = p mod b"
proof -
  have "unat ((s + p) mod b) = ((unat s + unat p) mod 2 ^ 32) mod unat b"
    by (simp add: unat_mod unat_word_ariths(1))
  also have "\<dots> = (unat s + unat p) mod unat b"
    using assms(1) by (simp add: mod_mod_cancel)
  also have "\<dots> = unat p mod unat b"
    using assms(2) mod_add_self1 add_right_cancel by fastforce
  finally show ?thesis by (simp add: word_unat_eq_iff unat_mod)
qed

lemma alignUp_add:
  fixes b s p :: "32 word"
  assumes "unat b dvd 2 ^ 32" and "unat b dvd unat s"
  shows "alignUp b (s + p) = s + alignUp b p"
  by (simp add: alignUp_def mod_add_aligned [OF assms] add.assoc)

lemma unat_add_dvd:
  fixes b s p :: "32 word"
  assumes "unat b dvd 2 ^ 32" and "unat b dvd unat s" and "unat b dvd unat p"
  shows "unat b dvd unat (s + p)"
  using assms by (simp add: unat_word_ariths(1) dvd_mod)

lemma foldl_alignUp_sum:
  fixes b s :: "32 word"
  assumes "unat b dvd 2 ^ 32" and "unat b dvd unat s"
  shows "foldl (\<lambda>s e. alignUp b (s + packedLength e)) s es
           = s + sum_list (map (\<lambda>e. alignUp b (packedLength e)) es)"
  using assms(2)
proof (induction es arbitrary: s)
  case Nil
  then show ?case by simp
next
  case (Cons e es)
  have step: "alignUp b (s + packedLength e) = s + alignUp b (packedLength e)"
    using assms(1) Cons.prems by (rule alignUp_add)
  have "unat b dvd unat (s + alignUp b (packedLength e))"
    using assms(1) Cons.prems unat_alignUp_dvd [OF assms(1)] by (rule unat_add_dvd)
  from Cons.IH [OF this] show ?case by (simp add: step add.assoc)
qed

subsection \<open>The block table\<close>

lemma Code_uint32_ok:
  "4 \<le> length r \<Longrightarrow>
   Code_uint32 \<lparr>remaining = r, firstError = None\<rparr>
     = (of_nat (le_value (take 4 r)), \<lparr>remaining = drop 4 r, firstError = None\<rparr>)"
  by (simp add: Code_uint32_def Code_raw_def)

lemma Code_uint16_ok:
  "2 \<le> length r \<Longrightarrow>
   Code_uint16 \<lparr>remaining = r, firstError = None\<rparr>
     = (of_nat (le_value (take 2 r)), \<lparr>remaining = drop 2 r, firstError = None\<rparr>)"
  by (simp add: Code_uint16_def Code_raw_def)

lemma Code_uint32_error:
  "firstError coder \<noteq> None \<Longrightarrow> Code_uint32 coder = (0, coder)"
  by (simp add: Code_uint32_def Code_raw_def)

lemma Code_uint32_short:
  "length r < 4 \<Longrightarrow> firstError (snd (Code_uint32 \<lparr>remaining = r, firstError = None\<rparr>)) \<noteq> None"
  by (simp add: Code_uint32_def Code_raw_def)

lemma Code_uint16_short:
  "length r < 2 \<Longrightarrow> firstError (snd (Code_uint16 \<lparr>remaining = r, firstError = None\<rparr>)) \<noteq> None"
  by (simp add: Code_uint16_def Code_raw_def)

lemma readBlockList_loop_error:
  "firstError coder \<noteq> None \<Longrightarrow> snd (readBlockList_loop n lastEnd coder) = coder"
  by (induction n arbitrary: lastEnd) (simp_all add: Code_uint32_error split_beta)

lemma readBlockList_loop_ok:
  "4 * n \<le> length r \<Longrightarrow>
   snd (readBlockList_loop n lastEnd \<lparr>remaining = r, firstError = None\<rparr>)
      = \<lparr>remaining = drop (4 * n) r, firstError = None\<rparr>
   \<and> length (fst (readBlockList_loop n lastEnd \<lparr>remaining = r, firstError = None\<rparr>)) = n
   \<and> (\<forall>i<n. fst (readBlockList_loop n lastEnd \<lparr>remaining = r, firstError = None\<rparr>) ! i
         = \<lparr>start = (if i = 0 then lastEnd else of_nat (le_value (take 4 (drop (4 * (i - 1)) r)))),
            size_entry = of_nat (le_value (take 4 (drop (4 * i) r)))
               - (if i = 0 then lastEnd else of_nat (le_value (take 4 (drop (4 * (i - 1)) r))))\<rparr>)"
proof (induction n arbitrary: lastEnd r)
  case 0
  then show ?case by simp
next
  case (Suc n)
  have r4: "4 \<le> length r" and rest: "4 * n \<le> length (drop 4 r)" using Suc.prems by simp_all
  let ?e0 = "of_nat (le_value (take 4 r)) :: 32 word"
  let ?rec = "readBlockList_loop n ?e0 \<lparr>remaining = drop 4 r, firstError = None\<rparr>"
  note ih = Suc.IH [OF rest, of ?e0]
  have unfold: "readBlockList_loop (Suc n) lastEnd \<lparr>remaining = r, firstError = None\<rparr>
      = (\<lparr>start = lastEnd, size_entry = ?e0 - lastEnd\<rparr> # fst ?rec, snd ?rec)"
    by (simp add: Code_uint32_ok [OF r4] split_beta)
  have "fst (readBlockList_loop (Suc n) lastEnd \<lparr>remaining = r, firstError = None\<rparr>) ! i
         = \<lparr>start = (if i = 0 then lastEnd else of_nat (le_value (take 4 (drop (4 * (i - 1)) r)))),
            size_entry = of_nat (le_value (take 4 (drop (4 * i) r)))
               - (if i = 0 then lastEnd else of_nat (le_value (take 4 (drop (4 * (i - 1)) r))))\<rparr>"
    if "i < Suc n" for i
  proof (cases i)
    case 0
    then show ?thesis by (simp add: unfold del: readBlockList_loop.simps)
  next
    case (Suc j)
    then have j: "j < n" using that by simp
    have d1: "drop (4 * j) (drop 4 r) = drop (4 * Suc j) r" by (simp add: add.commute)
    have d2: "j \<noteq> 0 \<Longrightarrow> drop (4 * (j - 1)) (drop 4 r) = drop (4 * j) r"
      by (cases j) (simp_all add: add.commute)
    show ?thesis using ih j d1 d2 by (simp add: unfold Suc del: readBlockList_loop.simps)
  qed
  then show ?case using ih by (simp add: unfold add.commute del: readBlockList_loop.simps)
qed


lemma readBlockList_loop_short:
  "length r < 4 * n \<Longrightarrow>
   firstError (snd (readBlockList_loop n lastEnd \<lparr>remaining = r, firstError = None\<rparr>)) \<noteq> None"
proof (induction n arbitrary: lastEnd r)
  case 0
  then show ?case by simp
next
  case (Suc n)
  show ?case
  proof (cases "length r < 4")
    case True
    have err: "firstError (snd (Code_uint32 \<lparr>remaining = r, firstError = None\<rparr>)) \<noteq> None"
      using True by (rule Code_uint32_short)
    show ?thesis
      using err readBlockList_loop_error [OF err]
      by (simp add: split_beta)
  next
    case False
    then have r4: "4 \<le> length r" by simp
    have "length (drop 4 r) < 4 * n" using Suc.prems r4 by simp
    from Suc.IH [OF this] show ?thesis
      by (simp add: Code_uint32_ok [OF r4] split_beta)
  qed
qed

lemma readBlockList_complete:
  assumes "snd (snd (readBlockList w)) = None"
  shows "6 + 4 * tableBlockCount w \<le> length w"
proof (rule ccontr)
  assume neg: "\<not> 6 + 4 * tableBlockCount w \<le> length w"
  have w: "NewDecoder w = \<lparr>remaining = w, firstError = None\<rparr>" by (simp add: NewDecoder_def)
  consider "length w < 2" | "2 \<le> length w" "length w < 6" | "6 \<le> length w" by linarith
  then have "snd (snd (readBlockList w)) \<noteq> None"
  proof cases
    case 1
    have e1: "firstError (snd (Code_uint16 \<lparr>remaining = w, firstError = None\<rparr>)) \<noteq> None"
      using 1 by (rule Code_uint16_short)
    show ?thesis
      using e1 readBlockList_loop_error
      by (simp add: readBlockList_def w Let_def split_beta Code_uint32_error)
  next
    case 2
    have e2: "firstError (snd (Code_uint32 \<lparr>remaining = drop 2 w, firstError = None\<rparr>)) \<noteq> None"
      using 2 by (intro Code_uint32_short) simp
    show ?thesis
      using e2 readBlockList_loop_error
      by (simp add: readBlockList_def w Let_def split_beta Code_uint16_ok [OF 2(1)])
  next
    case 3
    have w2: "2 \<le> length w" and w4: "4 \<le> length (drop 2 w)" using 3 by simp_all
    have short: "length (drop 4 (drop 2 w)) < 4 * tableBlockCount w" using neg 3 by simp
    show ?thesis
      using readBlockList_loop_short [OF short]
      by (simp add: readBlockList_def w Let_def split_beta Code_uint16_ok [OF w2]
          Code_uint32_ok [OF w4] tableBlockCount_def)
  qed
  then show False using assms by simp
qed

lemma readBlockList_ok:
  assumes "6 + 4 * tableBlockCount w \<le> length w"
  shows "readBlockList w
     = (tableFirstBlockOffset w,
        fst (readBlockList_loop (tableBlockCount w) (tableFirstBlockOffset w)
               \<lparr>remaining = drop 4 (drop 2 w), firstError = None\<rparr>), None)"
proof -
  have w: "NewDecoder w = \<lparr>remaining = w, firstError = None\<rparr>" by (simp add: NewDecoder_def)
  have w2: "2 \<le> length w" and w4: "4 \<le> length (drop 2 w)"
    and wn: "4 * tableBlockCount w \<le> length (drop 4 (drop 2 w))"
    using assms by simp_all
  note loop = readBlockList_loop_ok [OF wn, of "tableFirstBlockOffset w"]
  show ?thesis
    using loop
    by (simp add: readBlockList_def w Let_def split_beta Code_uint16_ok [OF w2]
        Code_uint32_ok [OF w4] tableBlockCount_def tableFirstBlockOffset_def)
qed


subsection \<open>Lookup and cache\<close>

lemma find_Some_ID:
  "find (\<lambda>e. ID e = ident) dir = Some entry \<Longrightarrow> ident \<in> ID ` set dir"
  by (auto simp: find_Some_iff)

lemma find_None_ID:
  "ident \<notin> ID ` set dir \<Longrightarrow> find (\<lambda>e. ID e = ident) dir = None"
  by (auto simp: find_None_iff)

lemma findEntry_eq:
  "findEntry fmt reader ident =
     (foldl (\<lambda>s e. alignUp (boundarySize fmt) (s + packedLength e)) (firstResourceOffset reader)
        (takeWhile (\<lambda>e. ID e \<noteq> ident) (directory reader)),
      find (\<lambda>e. ID e = ident) (directory reader))"
  by (simp add: findEntry_def findEntry_loop_fold)

lemma Reader_Resource_cached:
  "cache reader ident = Some p
     \<Longrightarrow> Reader_Resource fmt decompress ident (reader, heap) = ((Some p, None), reader, heap)"
  by (simp add: Reader_Resource_def)

lemma Reader_Resource_unknown:
  "cache reader ident = None \<Longrightarrow> ident \<notin> ID ` set (directory reader)
     \<Longrightarrow> Reader_Resource fmt decompress ident (reader, heap)
           = ((None, Some (ErrResourceDoesNotExist ident)), reader, heap)"
  by (simp add: Reader_Resource_def findEntry_eq find_None_ID)

lemma Reader_Resource_cases:
  assumes "Reader_Resource fmt decompress ident (reader, heap) = ((r, e), reader', heap')"
  shows "(\<exists>p. cache reader ident = Some p \<and> r = Some p \<and> e = None \<and> reader' = reader \<and> heap' = heap)
       \<or> (\<exists>err. cache reader ident = None \<and> r = None \<and> e = Some err \<and> reader' = reader
             \<and> heap' = heap)
       \<or> (\<exists>res. cache reader ident = None \<and> ident \<in> ID ` set (directory reader)
             \<and> r = Some (length heap) \<and> e = None
             \<and> reader' = reader\<lparr>cache := (cache reader)(ident \<mapsto> length heap)\<rparr>
             \<and> heap' = heap @ [res])"
proof -
  have eq: "((r, e), reader', heap') = Reader_Resource fmt decompress ident (reader, heap)"
    using assms by simp
  show ?thesis
  proof (cases "cache reader ident")
    case (Some p)
    then show ?thesis using eq by (simp add: Reader_Resource_def)
  next
    case None
    show ?thesis
    proof (cases "find (\<lambda>e. ID e = ident) (directory reader)")
      case fn: None
      then show ?thesis using eq None by (simp add: Reader_Resource_def findEntry_eq)
    next
      case (Some entry)
      then have "ident \<in> ID ` set (directory reader)" by (rule find_Some_ID)
      then show ?thesis using eq None Some
        by (auto simp: Reader_Resource_def findEntry_eq Let_def split: sum.splits if_splits)
    qed
  qed
qed

lemma Reader_Resource_cache_ok:
  assumes "cache_ok reader"
    and "Reader_Resource fmt decompress ident (reader, heap) = (res, reader', heap')"
  shows "cache_ok reader'"
proof -
  obtain r e where res: "res = (r, e)" by (cases res)
  from Reader_Resource_cases [OF assms(2) [unfolded res]] assms(1)
  show ?thesis by (fastforce simp: cache_ok_def dom_def split: if_splits)
qed

lemma Reader_Resource_cache_keeps:
  assumes "cache reader ident = Some p"
    and "Reader_Resource fmt decompress ident' (reader, heap) = (res, reader', heap')"
  shows "cache reader' ident = Some p"
proof -
  obtain r e where res: "res = (r, e)" by (cases res)
  from Reader_Resource_cases [OF assms(2) [unfolded res]] assms(1)
  show ?thesis by auto
qed

lemma ReaderFrom_cache_ok:
  "ReaderFrom fmt src = (Some reader, e) \<Longrightarrow> cache_ok reader"
  by (auto simp: ReaderFrom_def cache_ok_def split: option.splits prod.splits)

subsection \<open>Opening an archive\<close>

lemma readAndVerifyHeader_mismatch:
  assumes "format_ok fmt"
    and "resourceDirectoryFileOffsetPos fmt \<le> length bytes
         \<or> headerString fmt @ [commentTerminator fmt]
             \<noteq> replicate (length (headerString fmt) + 1) 0"
    and "take (length (headerString fmt) + 1) bytes \<noteq> headerString fmt @ [commentTerminator fmt]"
  shows "readAndVerifyHeader fmt
           (NewSectionReader bytes 0 (int (resourceDirectoryFileOffsetPos fmt) + 4))
         = (0, Some errFormatMismatch)"
proof (cases "resourceDirectoryFileOffsetPos fmt \<le> length bytes")
  case True
  let ?pos = "resourceDirectoryFileOffsetPos fmt"
  have sec: "NewSectionReader bytes 0 (int ?pos + 4) = take (?pos + 4) bytes"
    by (simp add: NewSectionReader_def nat_add_distrib)
  have data: "Code_bytes ?pos (NewDecoder (take (?pos + 4) bytes))
      = (take ?pos bytes, \<lparr>remaining = drop ?pos (take (?pos + 4) bytes), firstError = None\<rparr>)"
    using True by (simp add: Code_bytes_def Code_raw_def NewDecoder_def min_def)
  have "take (length (headerString fmt) + 1) (take ?pos bytes)
          = take (length (headerString fmt) + 1) bytes"
    using assms(1) by (simp add: format_ok_def min_def)
  then show ?thesis using assms(3)
    by (simp add: readAndVerifyHeader_def sec data Let_def split_beta)
next
  case False
  let ?pos = "resourceDirectoryFileOffsetPos fmt"
  have sec: "NewSectionReader bytes 0 (int ?pos + 4) = bytes"
    using False by (simp add: NewSectionReader_def nat_add_distrib)
  have data: "fst (Code_bytes ?pos (NewDecoder bytes)) = replicate ?pos 0"
    using False by (simp add: Code_bytes_def Code_raw_def NewDecoder_def)
  have "take (length (headerString fmt) + 1) (replicate ?pos (0 :: byte))
          = replicate (length (headerString fmt) + 1) 0"
    using assms(1) by (simp add: format_ok_def min_def)
  then show ?thesis using assms(2) False data
    by (simp add: readAndVerifyHeader_def sec Let_def split_beta)
qed

lemma chunks_step:
  "0 < n \<Longrightarrow> chunks sz n bs = take sz bs # chunks sz (n - 1) (drop sz bs)"
  by (cases n) simp_all

lemma ReaderFrom_cases:
  assumes "ReaderFrom fmt src = (r, e)"
  shows "(r = None \<and> e \<noteq> None) \<or> (r \<noteq> None \<and> e = None)"
  using assms by (auto simp: ReaderFrom_def split: option.splits prod.splits)

lemma readAndVerifyHeader_ok:
  assumes "format_ok fmt"
    and "resourceDirectoryFileOffsetPos fmt + 4 \<le> length bytes"
    and "take (length (headerString fmt) + 1) bytes = headerString fmt @ [commentTerminator fmt]"
  shows "readAndVerifyHeader fmt
           (NewSectionReader bytes 0 (int (resourceDirectoryFileOffsetPos fmt) + 4))
         = (directoryOffset fmt bytes, None)"
proof -
  let ?pos = "resourceDirectoryFileOffsetPos fmt"
  have sec: "NewSectionReader bytes 0 (int ?pos + 4) = take (?pos + 4) bytes"
    by (simp add: NewSectionReader_def nat_add_distrib)
  have data: "Code_bytes ?pos (NewDecoder (take (?pos + 4) bytes))
      = (take ?pos bytes, \<lparr>remaining = drop ?pos (take (?pos + 4) bytes), firstError = None\<rparr>)"
    using assms(2) by (simp add: Code_bytes_def Code_raw_def NewDecoder_def min_def)
  have rem: "drop ?pos (take (?pos + 4) bytes) = take 4 (drop ?pos bytes)"
    by (simp add: drop_take)
  have off: "Code_uint32 \<lparr>remaining = take 4 (drop ?pos bytes), firstError = None\<rparr>
      = (directoryOffset fmt bytes, \<lparr>remaining = [], firstError = None\<rparr>)"
    using assms(2) by (simp add: Code_uint32_ok directoryOffset_def)
  have "take (length (headerString fmt) + 1) (take ?pos bytes)
          = take (length (headerString fmt) + 1) bytes"
    using assms(1) by (simp add: format_ok_def min_def)
  then show ?thesis using assms(3)
    by (simp add: readAndVerifyHeader_def sec data rem off Let_def)
qed

lemma readAndVerifyHeader_short:
  assumes "length bytes < resourceDirectoryFileOffsetPos fmt + 4"
  shows "snd (readAndVerifyHeader fmt
           (NewSectionReader bytes 0 (int (resourceDirectoryFileOffsetPos fmt) + 4))) \<noteq> None"
proof -
  let ?pos = "resourceDirectoryFileOffsetPos fmt"
  have sec: "NewSectionReader bytes 0 (int ?pos + 4) = bytes"
    using assms by (simp add: NewSectionReader_def nat_add_distrib)
  show ?thesis
  proof (cases "?pos \<le> length bytes")
    case True
    have data: "Code_bytes ?pos (NewDecoder bytes)
      = (take ?pos bytes, \<lparr>remaining = drop ?pos bytes, firstError = None\<rparr>)"
      using True by (simp add: Code_bytes_def Code_raw_def NewDecoder_def)
    have "length (drop ?pos bytes) < 4" using assms by simp
    from Code_uint32_short [OF this] show ?thesis
      by (simp add: readAndVerifyHeader_def sec data Let_def split_beta)
  next
    case False
    have err: "firstError (snd (Code_bytes ?pos (NewDecoder bytes))) \<noteq> None"
      using False by (simp add: Code_bytes_def Code_raw_def NewDecoder_def)
    then show ?thesis
      by (simp add: readAndVerifyHeader_def sec Let_def split_beta Code_uint32_error)
  qed
qed

lemma Code_raw_short:
  "length r < n \<Longrightarrow>
   \<exists>coder. Code_raw n (NewDecoder r) = (None, coder) \<and> firstError coder \<noteq> None"
  by (simp add: Code_raw_def NewDecoder_def)

lemma Code_raw_ok:
  "n \<le> length r \<Longrightarrow>
   Code_raw n (NewDecoder r) = (Some (take n r), \<lparr>remaining = drop n r, firstError = None\<rparr>)"
  by (simp add: Code_raw_def NewDecoder_def)

lemma section_at:
  "0 < n \<Longrightarrow> NewSectionReader bytes (uint (dirOffset :: 32 word) + int hs) (int n)
           = take n (drop (unat dirOffset + hs) bytes)"
proof -
  have "0 \<le> uint dirOffset + int hs" by simp
  then have "\<not> uint dirOffset + int hs < 0" by linarith
  then show ?thesis by (simp add: NewSectionReader_def nat_add_distrib)
qed

lemma section_at_0:
  "0 < n \<Longrightarrow> NewSectionReader bytes (uint (dirOffset :: 32 word)) (int n)
           = take n (drop (unat dirOffset) bytes)"
  by (simp add: NewSectionReader_def)

lemma readDirectoryAt_header_short:
  assumes "0 < dirHeaderSize fmt"
    and "length bytes < unat dirOffset + dirHeaderSize fmt"
  shows "\<exists>err. readDirectoryAt fmt dirOffset bytes = (0, [], Some err)"
proof -
  have "length (take (dirHeaderSize fmt) (drop (unat dirOffset) bytes)) < dirHeaderSize fmt"
    using assms by simp
  from Code_raw_short [OF this] obtain coder where
    c: "Code_raw (dirHeaderSize fmt)
          (NewDecoder (NewSectionReader bytes (uint dirOffset) (int (dirHeaderSize fmt))))
        = (None, coder)" and e: "firstError coder \<noteq> None"
    unfolding section_at_0 [OF assms(1)] by blast
  have "readDirectoryAt fmt dirOffset bytes = (0, [], firstError coder)"
    unfolding readDirectoryAt_def Let_def c by simp
  then show ?thesis using e by auto
qed

lemma readDirectoryAt_header_ok:
  assumes "unat dirOffset + dirHeaderSize fmt \<le> length bytes"
    and "hdr = decodeDirHeader fmt (take (dirHeaderSize fmt) (drop (unat dirOffset) bytes))"
  shows "readDirectoryAt fmt dirOffset bytes =
     (if ResourceCount hdr > 0 then
        (case Code_raw (ResourceCount hdr * dirEntrySize fmt)
                (NewDecoder (NewSectionReader bytes (uint dirOffset + int (dirHeaderSize fmt))
                   (int (ResourceCount hdr * dirEntrySize fmt)))) of
           (None, listCoder) \<Rightarrow>
             (FirstResourceOffset hdr, replicate (ResourceCount hdr) zeroEntry,
              firstError listCoder)
         | (Some listBytes, listCoder) \<Rightarrow>
             (FirstResourceOffset hdr,
              map (decodeDirEntry fmt) (chunks (dirEntrySize fmt) (ResourceCount hdr) listBytes),
              firstError listCoder))
      else (FirstResourceOffset hdr, replicate (ResourceCount hdr) zeroEntry, None))"
proof -
  have c: "Code_raw (dirHeaderSize fmt)
          (NewDecoder (NewSectionReader bytes (uint dirOffset) (int (dirHeaderSize fmt))))
        = (Some (take (dirHeaderSize fmt) (drop (unat dirOffset) bytes)),
           \<lparr>remaining = [], firstError = None\<rparr>)"
  proof (cases "dirHeaderSize fmt = 0")
    case True
    then show ?thesis by (simp add: NewSectionReader_def Code_raw_def NewDecoder_def)
  next
    case False
    then have pos: "0 < dirHeaderSize fmt" by simp
    have "dirHeaderSize fmt \<le> length (take (dirHeaderSize fmt) (drop (unat dirOffset) bytes))"
      using assms(1) by simp
    from Code_raw_ok [OF this] show ?thesis
      unfolding section_at_0 [OF pos] using assms(1) by simp
  qed
  show ?thesis
    unfolding readDirectoryAt_def Let_def c prod.case option.case assms(2) [symmetric] ..
qed

lemma readDirectoryAt_list_short:
  assumes "unat dirOffset + dirHeaderSize fmt \<le> length bytes"
    and "hdr = decodeDirHeader fmt (take (dirHeaderSize fmt) (drop (unat dirOffset) bytes))"
    and "length bytes < unat dirOffset + dirHeaderSize fmt + ResourceCount hdr * dirEntrySize fmt"
  shows "\<exists>err. snd (snd (readDirectoryAt fmt dirOffset bytes)) = Some err"
proof -
  let ?n = "ResourceCount hdr * dirEntrySize fmt"
  have n: "0 < ?n" using assms(1,3) by (cases "?n = 0") simp_all
  then have cnt: "0 < ResourceCount hdr" by (cases "ResourceCount hdr = 0") simp_all
  have "length (take ?n (drop (unat dirOffset + dirHeaderSize fmt) bytes)) < ?n"
    using assms(1,3) by simp
  from Code_raw_short [OF this] obtain coder where
    c: "Code_raw ?n (NewDecoder (NewSectionReader bytes (uint dirOffset + int (dirHeaderSize fmt))
                   (int ?n))) = (None, coder)" and e: "firstError coder \<noteq> None"
    unfolding section_at [OF n] by blast
  have "snd (snd (readDirectoryAt fmt dirOffset bytes)) = firstError coder"
    unfolding readDirectoryAt_header_ok [OF assms(1,2)] c using cnt by simp
  then show ?thesis using e by auto
qed

lemma readDirectoryAt_ok:
  assumes "hdr = decodeDirHeader fmt (take (dirHeaderSize fmt) (drop (unat dirOffset) bytes))"
    and "unat dirOffset + dirHeaderSize fmt + ResourceCount hdr * dirEntrySize fmt \<le> length bytes"
  shows "readDirectoryAt fmt dirOffset bytes
           = (FirstResourceOffset hdr,
              map (decodeDirEntry fmt)
                (chunks (dirEntrySize fmt) (ResourceCount hdr)
                   (take (ResourceCount hdr * dirEntrySize fmt)
                      (drop (unat dirOffset + dirHeaderSize fmt) bytes))),
              None)"
proof -
  let ?n = "ResourceCount hdr * dirEntrySize fmt"
  have h: "unat dirOffset + dirHeaderSize fmt \<le> length bytes" using assms(2) by simp
  show ?thesis
  proof (cases "?n = 0")
    case True
    have c: "Code_raw ?n (NewDecoder (NewSectionReader bytes (uint dirOffset + int (dirHeaderSize fmt))
                   (int ?n))) = (Some [], \<lparr>remaining = [], firstError = None\<rparr>)"
      unfolding True by (simp add: NewSectionReader_def Code_raw_def NewDecoder_def)
    show ?thesis
      unfolding readDirectoryAt_header_ok [OF h assms(1)] c using True
      by (cases "ResourceCount hdr = 0") simp_all
  next
    case False
    then have n: "0 < ?n" by simp
    then have cnt: "0 < ResourceCount hdr" by (cases "ResourceCount hdr = 0") simp_all
    have "?n \<le> length (take ?n (drop (unat dirOffset + dirHeaderSize fmt) bytes))"
      using assms(2) by simp
    from Code_raw_ok [OF this]
    have c: "Code_raw ?n (NewDecoder (NewSectionReader bytes (uint dirOffset + int (dirHeaderSize fmt))
                   (int ?n)))
        = (Some (take ?n (drop (unat dirOffset + dirHeaderSize fmt) bytes)),
           \<lparr>remaining = [], firstError = None\<rparr>)"
      unfolding section_at [OF n] using assms(2) by simp
    show ?thesis
      unfolding readDirectoryAt_header_ok [OF h assms(1)] c using cnt by simp
  qed
qed


lemma ReaderFrom_header_short:
  assumes "length bytes < resourceDirectoryFileOffsetPos fmt + 4"
  shows "\<exists>e. ReaderFrom fmt (Some bytes) = (None, Some e)"
  using readAndVerifyHeader_short [OF assms]
  by (auto simp: ReaderFrom_def split: prod.split option.split)

lemma ReaderFrom_directory:
  assumes "format_ok fmt"
    and "resourceDirectoryFileOffsetPos fmt + 4 \<le> length bytes"
    and "take (length (headerString fmt) + 1) bytes = headerString fmt @ [commentTerminator fmt]"
  shows "ReaderFrom fmt (Some bytes) =
     (case readDirectoryAt fmt (directoryOffset fmt bytes) bytes of
        (firstOffset, dir, Some err) \<Rightarrow> (None, Some err)
      | (firstOffset, dir, None) \<Rightarrow>
          (Some \<lparr>source = bytes, firstResourceOffset = firstOffset,
                 directory = dir, cache = Map.empty\<rparr>, None))"
  by (simp add: ReaderFrom_def readAndVerifyHeader_ok [OF assms])

lemma ReaderFrom_directory_header_short:
  assumes "format_ok fmt"
    and "resourceDirectoryFileOffsetPos fmt + 4 \<le> length bytes"
    and "take (length (headerString fmt) + 1) bytes = headerString fmt @ [commentTerminator fmt]"
    and "0 < dirHeaderSize fmt"
    and "length bytes < unat (directoryOffset fmt bytes) + dirHeaderSize fmt"
  shows "\<exists>e. ReaderFrom fmt (Some bytes) = (None, Some e)"
proof -
  from readDirectoryAt_header_short [OF assms(4,5)] obtain err where
    "readDirectoryAt fmt (directoryOffset fmt bytes) bytes = (0, [], Some err)" by blast
  then show ?thesis by (simp add: ReaderFrom_directory [OF assms(1-3)])
qed

lemma ReaderFrom_directory_list_short:
  assumes "format_ok fmt"
    and "resourceDirectoryFileOffsetPos fmt + 4 \<le> length bytes"
    and "take (length (headerString fmt) + 1) bytes = headerString fmt @ [commentTerminator fmt]"
    and "unat (directoryOffset fmt bytes) + dirHeaderSize fmt \<le> length bytes"
    and "length bytes < directoryEnd fmt bytes"
  shows "\<exists>e. ReaderFrom fmt (Some bytes) = (None, Some e)"
proof -
  have "\<exists>err. snd (snd (readDirectoryAt fmt (directoryOffset fmt bytes) bytes)) = Some err"
    using assms(5) unfolding directoryEnd_def directoryHeader_def
    by (intro readDirectoryAt_list_short [OF assms(4) refl])
  then show ?thesis
    by (auto simp: ReaderFrom_directory [OF assms(1-3)] split: prod.split)
qed

lemma ReaderFrom_ok:
  assumes "format_ok fmt"
    and "resourceDirectoryFileOffsetPos fmt + 4 \<le> length bytes"
    and "take (length (headerString fmt) + 1) bytes = headerString fmt @ [commentTerminator fmt]"
    and "directoryEnd fmt bytes \<le> length bytes"
  shows "ReaderFrom fmt (Some bytes) =
           (Some \<lparr>source = bytes,
                  firstResourceOffset = FirstResourceOffset (directoryHeader fmt bytes),
                  directory = directoryEntries fmt bytes, cache = Map.empty\<rparr>, None)"
proof -
  have "readDirectoryAt fmt (directoryOffset fmt bytes) bytes
      = (FirstResourceOffset (directoryHeader fmt bytes), directoryEntries fmt bytes, None)"
    using assms(4) unfolding directoryEnd_def directoryHeader_def directoryEntries_def Let_def
    by (intro readDirectoryAt_ok [OF refl])
  then show ?thesis by (simp add: ReaderFrom_directory [OF assms(1-3)])
qed

subsection \<open>Blocks of a decoded resource\<close>


lemma newCompoundResourceReader_ok:
  assumes "snd (snd (readBlockList w)) = None"
    and "w = NewSectionReader (source reader) (uint resourceStartOffset) (uint (packedLength entry))"
  shows "newCompoundResourceReader decompress reader entry ctype compressed resourceStartOffset
           = Inr (projr (newCompoundResourceReader decompress reader entry ctype compressed
                           resourceStartOffset))"
  using assms
  by (auto simp: newCompoundResourceReader_def Let_def split: prod.split option.split)









lemma Reader_Resource_decode_failed:
  assumes "cache reader ident = None"
    and "findEntry fmt reader ident = (off, Some entry)"
    and "(if resourceType entry AND resourceTypeFlagCompound fmt \<noteq> 0
          then newCompoundResourceReader decompress reader entry (contentType entry)
                 (resourceType entry AND resourceTypeFlagCompressed fmt \<noteq> 0) off
          else newSingleBlockResourceReader decompress reader entry (contentType entry)
                 (resourceType entry AND resourceTypeFlagCompressed fmt \<noteq> 0) off) = Inl err"
  shows "Reader_Resource fmt decompress ident (reader, heap) = ((None, Some err), reader, heap)"
  using assms by (simp add: Reader_Resource_def Let_def)

lemma Reader_Resource_decode_ok:
  assumes "cache reader ident = None"
    and "findEntry fmt reader ident = (off, Some entry)"
    and "(if resourceType entry AND resourceTypeFlagCompound fmt \<noteq> 0
          then newCompoundResourceReader decompress reader entry (contentType entry)
                 (resourceType entry AND resourceTypeFlagCompressed fmt \<noteq> 0) off
          else newSingleBlockResourceReader decompress reader entry (contentType entry)
                 (resourceType entry AND resourceTypeFlagCompressed fmt \<noteq> 0) off) = Inr res"
  shows "Reader_Resource fmt decompress ident (reader, heap)
           = ((Some (length heap), None),
              reader\<lparr>cache := (cache reader)(ident \<mapsto> length heap)\<rparr>, heap @ [res])"
  using assms by (simp add: Reader_Resource_def Let_def)

lemma newCompoundResourceReader_short:
  assumes "w = NewSectionReader (source reader) (uint off) (uint (packedLength entry))"
    and "length w < 6 + 4 * tableBlockCount w"
  shows "\<exists>err. newCompoundResourceReader decompress reader entry ctype compressed off = Inl err"
proof -
  have "snd (snd (readBlockList w)) \<noteq> None"
    using readBlockList_complete [of w] assms(2) by auto
  then show ?thesis
    by (auto simp: newCompoundResourceReader_def assms(1) [symmetric] Let_def
        split: prod.split option.split)
qed

lemma newCompoundResourceReader_complete:
  assumes "w = NewSectionReader (source reader) (uint off) (uint (packedLength entry))"
    and "6 + 4 * tableBlockCount w \<le> length w"
  shows "\<exists>res. newCompoundResourceReader decompress reader entry ctype compressed off = Inr res"
proof -
  have "snd (snd (readBlockList w)) = None"
    by (simp add: readBlockList_ok [OF assms(2)])
  from newCompoundResourceReader_ok [OF this assms(1)] show ?thesis by blast
qed

section \<open>Properties of \<open>Write\<close>\<close>

lemma Write_loop_append:
  "Write_loop ops src (xs @ ys) p wr =
     (case Write_loop ops src xs p wr of
        (None, p', wr') \<Rightarrow> Write_loop ops src ys p' wr'
      | (Some err, p', wr') \<Rightarrow> (Some err, p', wr'))"
  by (induction xs arbitrary: p wr)
     (auto split: prod.splits sum.splits option.splits)

section \<open>The claims\<close>

subsection \<open>Claims about the merge engine\<close>




text \<open>
  C6 (as stated) fails: a block with a zero leading byte is an overriding block for the
  code. With the single layer holding block 0 = [0, 0, 0], no layer yields a block with a
  non-zero leading byte, and yet the merged block 0 is that block, not the absent block.
\<close>

theorem merger_Block_zero_leading_not_absent_counterexample:
  "fst (Block (memBlocks False 1 False [ [0, 0, 0] ]) 0) = Inr [0, 0, 0]
   \<and> hd [0, 0, 0] = (0 :: byte)
   \<and> fst (merger_Block [memBlocks False 1 False [ [0, 0, 0] ]] 0) = (Some [0, 0, 0], None)
   \<and> fst (merger_Block [memBlocks False 1 False [ [0, 0, 0] ]] 0) \<noteq> (None, None)"
  by (simp add: merger_Block_def memBlocks_def Block_def Read1_def)




text \<open>
  C7: for a non-empty layer list the merged \<open>Compound\<close>, \<open>ContentType\<close> and
  \<open>Compressed\<close> are those of layer 0, and the merged \<open>BlockCount\<close> is the greatest
  block count of the layers. Block counts are taken to be non-negative: a count is a
  Go \<open>int\<close>, and the loop starts from the maximum 0.
\<close>

theorem merger_metadata:
  assumes "view \<noteq> []" and "\<forall>layer\<in>set view. 0 \<le> BlockCount layer"
  shows "merger_Compound view = Some (Compound (view ! 0))
       \<and> merger_ContentType view = Some (ContentType (view ! 0))
       \<and> merger_Compressed view = Some (Compressed (view ! 0))
       \<and> merger_BlockCount view = Max (BlockCount ` set view)"
proof -
  have fin: "finite (BlockCount ` set view)" and ne: "BlockCount ` set view \<noteq> {}"
    using assms(1) by simp_all
  have "0 \<le> Max (BlockCount ` set view)"
    using assms Max_ge_iff [OF fin ne, of 0] by (meson ex_in_conv set_empty imageI)
  then have "Max (insert 0 (BlockCount ` set view)) = Max (BlockCount ` set view)"
    using fin ne by (simp add: max_def)
  then show ?thesis using assms(1)
    by (simp add: merger_Compound_def merger_ContentType_def merger_Compressed_def
        merger_BlockCount_def BlockCount_loop_Max del: Max_insert)
qed

theorem merger_metadata_witness:
  "merger_Compound [memBlocks True 3 False [ [1], [2] ], memBlocks False 4 True [ [5], [], [6] ]]
     = Some True
   \<and> merger_ContentType [memBlocks True 3 False [ [1], [2] ], memBlocks False 4 True [ [5], [], [6] ]]
     = Some 3
   \<and> merger_Compressed [memBlocks True 3 False [ [1], [2] ], memBlocks False 4 True [ [5], [], [6] ]]
     = Some False
   \<and> merger_BlockCount [memBlocks True 3 False [ [1], [2] ], memBlocks False 4 True [ [5], [], [6] ]]
     = 3"
proof -
  let ?view = "[memBlocks True 3 False [ [1], [2] ], memBlocks False 4 True [ [5], [], [6] ]]"
  have ne: "?view \<noteq> []" by simp
  have nonneg: "\<forall>layer\<in>set ?view. 0 \<le> BlockCount layer"
    by (simp add: BlockCount_def memBlocks_def)
  from merger_metadata [OF ne nonneg] show ?thesis
    by (simp add: BlockCount_def memBlocks_def)
qed

text \<open>
  C10: a layer whose \<open>Block(index)\<close> fails during the peek has no influence on the
  merged result: the result is that of the list without the layer, and the error is
  dropped. An error returned by the merged \<open>Block(index)\<close> comes with a nil reader and is
  the error of the second (re-opening) call of a layer whose first call had succeeded
  and delivered a byte.
\<close>

theorem merger_Block_peek_error:
  "(Block mid index = (Inl tempErr, l1) \<longrightarrow>
      fst (merger_Block (lower @ mid # higher) index) = fst (merger_Block (lower @ higher) index))
   \<and> (fst (merger_Block view index') = (rd, Some e) \<longrightarrow>
        rd = None
        \<and> (\<exists>k<length view. \<exists>t l1 l2. Block (view ! k) index' = (Inr t, l1) \<and> t \<noteq> []
              \<and> Block l1 index' = (Inl e, l2)))"
proof (intro conjI impI)
  assume "Block mid index = (Inl tempErr, l1)"
  from Block_loop_drop_failing [OF this]
  show "fst (merger_Block (lower @ mid # higher) index) = fst (merger_Block (lower @ higher) index)"
    unfolding merger_Block_def .
next
  assume res: "fst (merger_Block view index') = (rd, Some e)"
  show "rd = None"
    using Block_loop_not_both [of None None view "length view" index'] res
    by (simp add: merger_Block_def)
  show "\<exists>k<length view. \<exists>t l1 l2. Block (view ! k) index' = (Inr t, l1) \<and> t \<noteq> []
              \<and> Block l1 index' = (Inl e, l2)"
    using Block_loop_error_origin [OF order_refl, of view index' None None rd e] res
    by (simp add: merger_Block_def)
qed

theorem merger_Block_peek_error_witness:
  "fst (merger_Block ([memBlocks True 0 False [ [4] ]] @ memBlocks True 0 False [] # []) 0)
     = fst (merger_Block ([memBlocks True 0 False [ [4] ]] @ []) 0)
   \<and> fst (merger_Block [memBlocks True 0 False [ [] ], fadingBlocks [ [5] ]] 0)
       = (None, Some (ErrOther 1))
   \<and> (\<exists>k<length [memBlocks True 0 False [ [] ], fadingBlocks [ [5] ]]. \<exists>t l1 l2.
         Block ([memBlocks True 0 False [ [] ], fadingBlocks [ [5] ]] ! k) 0 = (Inr t, l1) \<and> t \<noteq> []
         \<and> Block l1 0 = (Inl (ErrOther 1), l2))"
proof -
  have peek: "Block (memBlocks True 0 False []) 0
     = (Inl (ErrBlockIndexWrong 0 0), inState (memBlocks True 0 False []) 1)"
    by (simp add: memBlocks_def inState_def Block_def)
  have res: "fst (merger_Block [memBlocks True 0 False [ [] ], fadingBlocks [ [5] ]] 0)
       = (None, Some (ErrOther 1))"
    by (simp add: merger_Block_def memBlocks_def inState_def fadingBlocks_def Block_def Read1_def
        numeral_2_eq_2)
  from merger_Block_peek_error
    [of "memBlocks True 0 False []" 0 "ErrBlockIndexWrong 0 0"
        "inState (memBlocks True 0 False []) 1" "[memBlocks True 0 False [ [4] ]]" "[]"
        "[memBlocks True 0 False [ [] ], fadingBlocks [ [5] ]]" 0 None "ErrOther 1"]
  show ?thesis using peek res by simp
qed

subsection \<open>Claims about lookup and cache\<close>

text \<open>
  C2: \<open>findEntry\<close> starts at \<open>firstResourceOffset\<close> and, for each entry before the first
  one with the identifier, adds the entry's packed length and rounds the running offset
  up to the boundary; the first entry with the identifier is the result. For an aligned
  layout this offset is \<open>firstResourceOffset\<close> plus the sum of the packed lengths of the
  preceding entries, each rounded up to the boundary. For an identifier that is in no
  entry (and hence, the cache being sound, not cached), \<open>Resource(id)\<close> fails with the
  does-not-exist error and returns neither the offset nor any change of the reader.
\<close>

theorem findEntry_resolves_offset:
  "findEntry fmt reader ident =
     (foldl (\<lambda>s e. alignUp (boundarySize fmt) (s + packedLength e)) (firstResourceOffset reader)
        (takeWhile (\<lambda>e. ID e \<noteq> ident) (directory reader)),
      find (\<lambda>e. ID e = ident) (directory reader))
   \<and> (aligned_layout fmt reader \<longrightarrow>
        fst (findEntry fmt reader ident) =
          firstResourceOffset reader
          + sum_list (map (\<lambda>e. alignUp (boundarySize fmt) (packedLength e))
                        (takeWhile (\<lambda>e. ID e \<noteq> ident) (directory reader))))
   \<and> (cache_ok reader \<and> ident \<notin> ID ` set (directory reader) \<longrightarrow>
        Reader_Resource fmt decompress ident (reader, heap)
          = ((None, Some (ErrResourceDoesNotExist ident)), reader, heap))"
proof (intro conjI impI)
  show "findEntry fmt reader ident =
     (foldl (\<lambda>s e. alignUp (boundarySize fmt) (s + packedLength e)) (firstResourceOffset reader)
        (takeWhile (\<lambda>e. ID e \<noteq> ident) (directory reader)),
      find (\<lambda>e. ID e = ident) (directory reader))"
    by (rule findEntry_eq)
next
  assume "aligned_layout fmt reader"
  then have b: "unat (boundarySize fmt) dvd 2 ^ 32"
    and s: "unat (boundarySize fmt) dvd unat (firstResourceOffset reader)"
    by (simp_all add: aligned_layout_def)
  show "fst (findEntry fmt reader ident) =
          firstResourceOffset reader
          + sum_list (map (\<lambda>e. alignUp (boundarySize fmt) (packedLength e))
                        (takeWhile (\<lambda>e. ID e \<noteq> ident) (directory reader)))"
    by (simp add: findEntry_eq foldl_alignUp_sum [OF b s])
next
  assume a: "cache_ok reader \<and> ident \<notin> ID ` set (directory reader)"
  then have "cache reader ident = None" by (auto simp: cache_ok_def)
  then show "Reader_Resource fmt decompress ident (reader, heap)
          = ((None, Some (ErrResourceDoesNotExist ident)), reader, heap)"
    using a by (simp add: Reader_Resource_unknown)
qed

theorem findEntry_resolves_offset_witness:
  "aligned_layout exampleFormat (exampleReader 18)
   \<and> findEntry exampleFormat (exampleReader 18) 3 = (36, Some (exampleDirectory 18 ! 2))
   \<and> fst (findEntry exampleFormat (exampleReader 18) 3) = 8 + (4 + 24)
   \<and> cache_ok (exampleReader 18) \<and> 7 \<notin> ID ` set (directory (exampleReader 18))
   \<and> Reader_Resource exampleFormat exampleDecompress 7 (exampleReader 18, [])
        = ((None, Some (ErrResourceDoesNotExist 7)), exampleReader 18, [])"
proof -
  have al: "aligned_layout exampleFormat (exampleReader 18)"
    by (simp add: aligned_layout_def exampleFormat_def exampleReader_def)
  have ok: "cache_ok (exampleReader 18) \<and> 7 \<notin> ID ` set (directory (exampleReader 18))"
    by (simp add: cache_ok_def exampleReader_def exampleDirectory_def)
  note t3 = findEntry_resolves_offset [of exampleFormat "exampleReader 18" 3 exampleDecompress "[]"]
  note t7 = findEntry_resolves_offset [of exampleFormat "exampleReader 18" 7 exampleDecompress "[]"]
  have f: "foldl (\<lambda>s e. alignUp (boundarySize exampleFormat) (s + packedLength e))
             (firstResourceOffset (exampleReader 18))
             (takeWhile (\<lambda>e. ID e \<noteq> 3) (directory (exampleReader 18))) = 36"
    by (simp add: exampleFormat_def exampleReader_def exampleDirectory_def alignUp_def)
  have g: "find (\<lambda>e. ID e = 3) (directory (exampleReader 18)) = Some (exampleDirectory 18 ! 2)"
    by (simp add: exampleReader_def exampleDirectory_def)
  have s: "firstResourceOffset (exampleReader 18)
          + sum_list (map (\<lambda>e. alignUp (boundarySize exampleFormat) (packedLength e))
                        (takeWhile (\<lambda>e. ID e \<noteq> 3) (directory (exampleReader 18)))) = 8 + (4 + 24)"
    by (simp add: exampleFormat_def exampleReader_def exampleDirectory_def alignUp_def)
  have c1: "findEntry exampleFormat (exampleReader 18) 3 = (36, Some (exampleDirectory 18 ! 2))"
    using t3 [THEN conjunct1] unfolding f g .
  have c2: "fst (findEntry exampleFormat (exampleReader 18) 3) = 8 + (4 + 24)"
    using t3 [THEN conjunct2, THEN conjunct1, rule_format, OF al] unfolding s .
  have c3: "Reader_Resource exampleFormat exampleDecompress 7 (exampleReader 18, [])
        = ((None, Some (ErrResourceDoesNotExist 7)), exampleReader 18, [])"
    using t7 [THEN conjunct2, THEN conjunct2, rule_format, OF ok] .
  show ?thesis using al ok c1 c2 c3 by blast
qed

text \<open>
  C4: \<open>Resource(id)\<close> returns the cached pointer when there is one and changes nothing;
  a cached pointer survives every later call, so two successful calls with the same
  identifier return the same instance; a failed call leaves the reader (and so the
  cache) and the heap unchanged; a successful call for an identifier not yet cached
  allocates one new resource and caches exactly its pointer.
\<close>

theorem Resource_is_cached:
  "(cache reader ident = Some p \<longrightarrow>
      Reader_Resource fmt decompress ident (reader, heap) = ((Some p, None), reader, heap))
   \<and> (Reader_Resource fmt decompress ident (reader, heap) = ((Some p, None), reader', heap') \<longrightarrow>
        Reader_Resource fmt decompress ident (reader', heap') = ((Some p, None), reader', heap'))
   \<and> (cache reader ident = Some p \<longrightarrow>
        cache (fst (snd (Reader_Resource fmt decompress other (reader, heap)))) ident = Some p)
   \<and> (Reader_Resource fmt decompress ident (reader, heap) = ((r, Some err), reader', heap') \<longrightarrow>
        r = None \<and> reader' = reader \<and> heap' = heap)
   \<and> (cache reader ident = None
        \<and> Reader_Resource fmt decompress ident (reader, heap) = ((Some p, None), reader', heap') \<longrightarrow>
        p = length heap \<and> cache reader' = (cache reader)(ident \<mapsto> p)
        \<and> length heap' = Suc (length heap) \<and> take (length heap) heap' = heap)
   \<and> (cache reader ident = None
        \<and> findEntry fmt reader ident = (off, Some entry)
        \<and> (if resourceType entry AND resourceTypeFlagCompound fmt \<noteq> 0
            then newCompoundResourceReader decompress reader entry (contentType entry)
                   (resourceType entry AND resourceTypeFlagCompressed fmt \<noteq> 0) off
            else newSingleBlockResourceReader decompress reader entry (contentType entry)
                   (resourceType entry AND resourceTypeFlagCompressed fmt \<noteq> 0) off) = Inl err \<longrightarrow>
        Reader_Resource fmt decompress ident (reader, heap) = ((None, Some err), reader, heap))
   \<and> (cache reader ident = None
        \<and> findEntry fmt reader ident = (off, Some entry)
        \<and> (if resourceType entry AND resourceTypeFlagCompound fmt \<noteq> 0
            then newCompoundResourceReader decompress reader entry (contentType entry)
                   (resourceType entry AND resourceTypeFlagCompressed fmt \<noteq> 0) off
            else newSingleBlockResourceReader decompress reader entry (contentType entry)
                   (resourceType entry AND resourceTypeFlagCompressed fmt \<noteq> 0) off) = Inr res \<longrightarrow>
        Reader_Resource fmt decompress ident (reader, heap)
          = ((Some (length heap), None),
             reader\<lparr>cache := (cache reader)(ident \<mapsto> length heap)\<rparr>, heap @ [res]))
   \<and> (cache reader ident = None
        \<and> findEntry fmt reader ident = (off, Some entry)
        \<and> w = NewSectionReader (source reader) (uint off) (uint (packedLength entry)) \<longrightarrow>
        (\<exists>e. Reader_Resource fmt decompress ident (reader, heap) = ((None, Some e), reader, heap))
          = (resourceType entry AND resourceTypeFlagCompound fmt \<noteq> 0
             \<and> length w < 6 + 4 * tableBlockCount w))"
proof -
  have c1: "cache reader ident = Some p \<longrightarrow>
      Reader_Resource fmt decompress ident (reader, heap) = ((Some p, None), reader, heap)"
    by (simp add: Reader_Resource_cached)
  have c2: "Reader_Resource fmt decompress ident (reader, heap) = ((Some p, None), reader', heap') \<longrightarrow>
        Reader_Resource fmt decompress ident (reader', heap') = ((Some p, None), reader', heap')"
  proof
    assume a: "Reader_Resource fmt decompress ident (reader, heap) = ((Some p, None), reader', heap')"
    from Reader_Resource_cases [OF a] have "cache reader' ident = Some p" by auto
    then show "Reader_Resource fmt decompress ident (reader', heap') = ((Some p, None), reader', heap')"
      by (rule Reader_Resource_cached)
  qed
  have c3: "cache reader ident = Some p \<longrightarrow>
        cache (fst (snd (Reader_Resource fmt decompress other (reader, heap)))) ident = Some p"
  proof
    assume a: "cache reader ident = Some p"
    obtain res rd hp where eq: "Reader_Resource fmt decompress other (reader, heap) = (res, rd, hp)"
      by (cases "Reader_Resource fmt decompress other (reader, heap)")
    from Reader_Resource_cache_keeps [OF a eq]
    show "cache (fst (snd (Reader_Resource fmt decompress other (reader, heap)))) ident = Some p"
      by (simp add: eq)
  qed
  have c4: "Reader_Resource fmt decompress ident (reader, heap) = ((r, Some err), reader', heap') \<longrightarrow>
        r = None \<and> reader' = reader \<and> heap' = heap"
  proof
    assume a: "Reader_Resource fmt decompress ident (reader, heap) = ((r, Some err), reader', heap')"
    from Reader_Resource_cases [OF a]
    show "r = None \<and> reader' = reader \<and> heap' = heap" by auto
  qed
  have c5: "cache reader ident = None
        \<and> Reader_Resource fmt decompress ident (reader, heap) = ((Some p, None), reader', heap') \<longrightarrow>
        p = length heap \<and> cache reader' = (cache reader)(ident \<mapsto> p)
        \<and> length heap' = Suc (length heap) \<and> take (length heap) heap' = heap"
  proof
    assume a: "cache reader ident = None
        \<and> Reader_Resource fmt decompress ident (reader, heap) = ((Some p, None), reader', heap')"
    from Reader_Resource_cases [OF a [THEN conjunct2]] a [THEN conjunct1]
    show "p = length heap \<and> cache reader' = (cache reader)(ident \<mapsto> p)
        \<and> length heap' = Suc (length heap) \<and> take (length heap) heap' = heap"
      by auto
  qed
  have c6: "cache reader ident = None
        \<and> findEntry fmt reader ident = (off, Some entry)
        \<and> (if resourceType entry AND resourceTypeFlagCompound fmt \<noteq> 0
            then newCompoundResourceReader decompress reader entry (contentType entry)
                   (resourceType entry AND resourceTypeFlagCompressed fmt \<noteq> 0) off
            else newSingleBlockResourceReader decompress reader entry (contentType entry)
                   (resourceType entry AND resourceTypeFlagCompressed fmt \<noteq> 0) off) = Inl err \<longrightarrow>
        Reader_Resource fmt decompress ident (reader, heap) = ((None, Some err), reader, heap)"
    by (simp add: Reader_Resource_def Let_def)
  have c7: "cache reader ident = None
        \<and> findEntry fmt reader ident = (off, Some entry)
        \<and> (if resourceType entry AND resourceTypeFlagCompound fmt \<noteq> 0
            then newCompoundResourceReader decompress reader entry (contentType entry)
                   (resourceType entry AND resourceTypeFlagCompressed fmt \<noteq> 0) off
            else newSingleBlockResourceReader decompress reader entry (contentType entry)
                   (resourceType entry AND resourceTypeFlagCompressed fmt \<noteq> 0) off) = Inr res \<longrightarrow>
        Reader_Resource fmt decompress ident (reader, heap)
          = ((Some (length heap), None),
             reader\<lparr>cache := (cache reader)(ident \<mapsto> length heap)\<rparr>, heap @ [res])"
    by (simp add: Reader_Resource_def Let_def)
  have c8: "cache reader ident = None
        \<and> findEntry fmt reader ident = (off, Some entry)
        \<and> w = NewSectionReader (source reader) (uint off) (uint (packedLength entry)) \<longrightarrow>
        (\<exists>e. Reader_Resource fmt decompress ident (reader, heap) = ((None, Some e), reader, heap))
          = (resourceType entry AND resourceTypeFlagCompound fmt \<noteq> 0
             \<and> length w < 6 + 4 * tableBlockCount w)"
  proof
    assume a: "cache reader ident = None
        \<and> findEntry fmt reader ident = (off, Some entry)
        \<and> w = NewSectionReader (source reader) (uint off) (uint (packedLength entry))"
    let ?compound = "resourceType entry AND resourceTypeFlagCompound fmt \<noteq> 0"
    let ?compressed = "resourceType entry AND resourceTypeFlagCompressed fmt \<noteq> 0"
    let ?decode = "if ?compound
            then newCompoundResourceReader decompress reader entry (contentType entry)
                   ?compressed off
            else newSingleBlockResourceReader decompress reader entry (contentType entry)
                   ?compressed off"
    have w: "w = NewSectionReader (source reader) (uint off) (uint (packedLength entry))"
      and cn: "cache reader ident = None"
      and fe: "findEntry fmt reader ident = (off, Some entry)"
      using a by simp_all
    show "(\<exists>e. Reader_Resource fmt decompress ident (reader, heap) = ((None, Some e), reader, heap))
          = (?compound \<and> length w < 6 + 4 * tableBlockCount w)"
    proof (cases "?compound \<and> length w < 6 + 4 * tableBlockCount w")
      case True
      from newCompoundResourceReader_short [OF w True [THEN conjunct2],
          of decompress "contentType entry" ?compressed]
      obtain e where "newCompoundResourceReader decompress reader entry (contentType entry)
                   ?compressed off = Inl e" by blast
      then have "?decode = Inl e" using True by simp
      from Reader_Resource_decode_failed [OF cn fe this]
      have "Reader_Resource fmt decompress ident (reader, heap) = ((None, Some e), reader, heap)" .
      then show ?thesis using True by blast
    next
      case False
      have "\<exists>res. ?decode = Inr res"
      proof (cases ?compound)
        case True
        then have "6 + 4 * tableBlockCount w \<le> length w" using False by simp
        from newCompoundResourceReader_complete [OF w this,
            of decompress "contentType entry" ?compressed]
        show ?thesis using True by simp
      next
        case nc: False
        then show ?thesis by (simp add: newSingleBlockResourceReader_def)
      qed
      then obtain res where "?decode = Inr res" by blast
      from Reader_Resource_decode_ok [OF cn fe this]
      have "Reader_Resource fmt decompress ident (reader, heap)
           = ((Some (length heap), None),
              reader\<lparr>cache := (cache reader)(ident \<mapsto> length heap)\<rparr>, heap @ [res])" .
      then show ?thesis using False by auto
    qed
  qed
  from c1 c2 c3 c4 c5 c6 c7 c8 show ?thesis by blast
qed

theorem Resource_is_cached_witness:
  "fst (Reader_Resource exampleFormat exampleDecompress 1 (exampleReader 18, [])) = (Some 0, None)
   \<and> cache (fst (snd (Reader_Resource exampleFormat exampleDecompress 1 (exampleReader 18, []))))
        = (cache (exampleReader 18))(1 \<mapsto> 0)
   \<and> Reader_Resource exampleFormat exampleDecompress 1
         (snd (Reader_Resource exampleFormat exampleDecompress 1 (exampleReader 18, [])))
        = ((Some 0, None), snd (Reader_Resource exampleFormat exampleDecompress 1 (exampleReader 18, [])))
   \<and> cache (fst (snd (Reader_Resource exampleFormat exampleDecompress 2
         (snd (Reader_Resource exampleFormat exampleDecompress 1 (exampleReader 18, [])))))) 1 = Some 0
   \<and> snd (Reader_Resource exampleFormat exampleDecompress 7 (exampleReader 18, []))
        = (exampleReader 18, [])"
proof -
  let ?R1 = "Reader_Resource exampleFormat exampleDecompress 1 (exampleReader 18, [])"
  let ?R7 = "Reader_Resource exampleFormat exampleDecompress 7 (exampleReader 18, [])"
  have r1: "fst ?R1 = (Some 0, None)"
    by (simp add: Reader_Resource_def findEntry_def exampleReader_def exampleDirectory_def
        exampleFormat_def newSingleBlockResourceReader_def Let_def)
  have e1: "?R1 = ((Some 0, None), fst (snd ?R1), snd (snd ?R1))"
    using r1 by (metis prod.collapse)
  have n1: "cache (exampleReader 18) 1 = None" by (simp add: exampleReader_def)
  have r7: "fst ?R7 = (None, Some (ErrResourceDoesNotExist 7))"
    by (simp add: Reader_Resource_def findEntry_def exampleReader_def exampleDirectory_def
        exampleFormat_def Let_def)
  have e7: "?R7 = ((None, Some (ErrResourceDoesNotExist 7)), fst (snd ?R7), snd (snd ?R7))"
    using r7 by (metis prod.collapse)
  note fresh = Resource_is_cached [of "exampleReader 18" 1 0 exampleFormat exampleDecompress "[]"
      "fst (snd ?R1)" "snd (snd ?R1)" 2 None ErrEOF]
  have c5: "0 = length ([] :: lgres_Resource list)
      \<and> cache (fst (snd ?R1)) = (cache (exampleReader 18))(1 \<mapsto> 0)
      \<and> length (snd (snd ?R1)) = Suc (length ([] :: lgres_Resource list))
      \<and> take (length ([] :: lgres_Resource list)) (snd (snd ?R1)) = []"
    using fresh n1 e1 by blast
  then have cached: "cache (fst (snd ?R1)) 1 = Some 0" by simp
  have c2: "Reader_Resource exampleFormat exampleDecompress 1 (fst (snd ?R1), snd (snd ?R1))
      = ((Some 0, None), fst (snd ?R1), snd (snd ?R1))"
    using fresh e1 by blast
  note again = Resource_is_cached [of "fst (snd ?R1)" 1 0 exampleFormat exampleDecompress
      "snd (snd ?R1)" "exampleReader 18" "[]" 2 "None" "ErrResourceDoesNotExist 7"]
  have c1: "Reader_Resource exampleFormat exampleDecompress 1 (fst (snd ?R1), snd (snd ?R1))
      = ((Some 0, None), fst (snd ?R1), snd (snd ?R1))"
    using again cached by blast
  have c3: "cache (fst (snd (Reader_Resource exampleFormat exampleDecompress 2
      (fst (snd ?R1), snd (snd ?R1))))) 1 = Some 0"
    using again cached by blast
  note failed = Resource_is_cached [of "exampleReader 18" 7 0 exampleFormat exampleDecompress "[]"
      "fst (snd ?R7)" "snd (snd ?R7)" 2 None "ErrResourceDoesNotExist 7"]
  have c4: "fst (snd ?R7) = exampleReader 18 \<and> snd (snd ?R7) = []"
    using failed e7 by blast
  then have c4': "snd ?R7 = (exampleReader 18, [])" by (metis prod.collapse)
  show ?thesis using r1 c5 c1 c3 c4' by simp
qed

subsection \<open>Claims about opening an archive\<close>

text \<open>
  C3: \<open>ReaderFrom\<close> on a nil source returns no reader and the source-nil error; a
  source whose leading bytes differ from the magic string followed by the terminator
  returns no reader and the format-mismatch error (for a source shorter than the header
  region this needs the magic string and terminator not to be all zero, since the
  comparison then sees zeros). A source that ends inside the header region returns no
  reader and an error. For a source with a complete and matching header region, no
  reader and an error are returned when the directory header does not lie inside the
  source (as for a directory offset out of bounds) and when the entry list is cut
  short; a reader is returned when the whole directory lies inside the source, and it
  holds the decoded directory. Every error of the header decoding and of the directory
  decoding is returned with no reader; and in every case either a reader or an error is
  returned, never both and never neither.
\<close>

theorem ReaderFrom_atomic:
  "ReaderFrom fmt None = (None, Some errSourceNil)
   \<and> (format_ok fmt
        \<and> (resourceDirectoryFileOffsetPos fmt \<le> length bytes
             \<or> headerString fmt @ [commentTerminator fmt]
                 \<noteq> replicate (length (headerString fmt) + 1) 0)
        \<and> take (length (headerString fmt) + 1) bytes \<noteq> headerString fmt @ [commentTerminator fmt]
        \<longrightarrow> ReaderFrom fmt (Some bytes) = (None, Some errFormatMismatch))
   \<and> (length bytes < resourceDirectoryFileOffsetPos fmt + 4
        \<longrightarrow> (\<exists>e. ReaderFrom fmt (Some bytes) = (None, Some e)))
   \<and> (format_ok fmt
        \<and> resourceDirectoryFileOffsetPos fmt + 4 \<le> length bytes
        \<and> take (length (headerString fmt) + 1) bytes = headerString fmt @ [commentTerminator fmt]
        \<longrightarrow>
          (0 < dirHeaderSize fmt
             \<and> length bytes < unat (directoryOffset fmt bytes) + dirHeaderSize fmt
             \<longrightarrow> (\<exists>e. ReaderFrom fmt (Some bytes) = (None, Some e)))
        \<and> (unat (directoryOffset fmt bytes) + dirHeaderSize fmt \<le> length bytes
             \<and> length bytes < directoryEnd fmt bytes
             \<longrightarrow> (\<exists>e. ReaderFrom fmt (Some bytes) = (None, Some e)))
        \<and> (directoryEnd fmt bytes \<le> length bytes
             \<longrightarrow> ReaderFrom fmt (Some bytes) =
                   (Some \<lparr>source = bytes,
                          firstResourceOffset = FirstResourceOffset (directoryHeader fmt bytes),
                          directory = directoryEntries fmt bytes, cache = Map.empty\<rparr>, None)))
   \<and> (snd (readAndVerifyHeader fmt
              (NewSectionReader bytes 0 (int (resourceDirectoryFileOffsetPos fmt) + 4))) = Some err
        \<longrightarrow> ReaderFrom fmt (Some bytes) = (None, Some err))
   \<and> (readAndVerifyHeader fmt
          (NewSectionReader bytes 0 (int (resourceDirectoryFileOffsetPos fmt) + 4)) = (dirOffset, None)
        \<and> snd (snd (readDirectoryAt fmt dirOffset bytes)) = Some err
        \<longrightarrow> ReaderFrom fmt (Some bytes) = (None, Some err))
   \<and> (ReaderFrom fmt src = (r, e) \<longrightarrow> (r = None) = (e \<noteq> None))"
proof -
  have c1: "ReaderFrom fmt None = (None, Some errSourceNil)"
    by (simp add: ReaderFrom_def)
  have c2: "format_ok fmt
        \<and> (resourceDirectoryFileOffsetPos fmt \<le> length bytes
             \<or> headerString fmt @ [commentTerminator fmt]
                 \<noteq> replicate (length (headerString fmt) + 1) 0)
        \<and> take (length (headerString fmt) + 1) bytes \<noteq> headerString fmt @ [commentTerminator fmt]
        \<longrightarrow> ReaderFrom fmt (Some bytes) = (None, Some errFormatMismatch)"
  proof
    assume a: "format_ok fmt
        \<and> (resourceDirectoryFileOffsetPos fmt \<le> length bytes
             \<or> headerString fmt @ [commentTerminator fmt]
                 \<noteq> replicate (length (headerString fmt) + 1) 0)
        \<and> take (length (headerString fmt) + 1) bytes \<noteq> headerString fmt @ [commentTerminator fmt]"
    have "readAndVerifyHeader fmt
           (NewSectionReader bytes 0 (int (resourceDirectoryFileOffsetPos fmt) + 4))
         = (0, Some errFormatMismatch)"
      using a by (intro readAndVerifyHeader_mismatch) blast+
    then show "ReaderFrom fmt (Some bytes) = (None, Some errFormatMismatch)"
      by (simp add: ReaderFrom_def)
  qed
  have s1: "length bytes < resourceDirectoryFileOffsetPos fmt + 4
        \<longrightarrow> (\<exists>e. ReaderFrom fmt (Some bytes) = (None, Some e))"
    using ReaderFrom_header_short by blast
  have s2: "0 < dirHeaderSize fmt
             \<and> length bytes < unat (directoryOffset fmt bytes) + dirHeaderSize fmt
             \<longrightarrow> (\<exists>e. ReaderFrom fmt (Some bytes) = (None, Some e))"
    if "format_ok fmt" "resourceDirectoryFileOffsetPos fmt + 4 \<le> length bytes"
       "take (length (headerString fmt) + 1) bytes = headerString fmt @ [commentTerminator fmt]"
    using ReaderFrom_directory_header_short [OF that] by blast
  have s3: "unat (directoryOffset fmt bytes) + dirHeaderSize fmt \<le> length bytes
             \<and> length bytes < directoryEnd fmt bytes
             \<longrightarrow> (\<exists>e. ReaderFrom fmt (Some bytes) = (None, Some e))"
    if "format_ok fmt" "resourceDirectoryFileOffsetPos fmt + 4 \<le> length bytes"
       "take (length (headerString fmt) + 1) bytes = headerString fmt @ [commentTerminator fmt]"
    using ReaderFrom_directory_list_short [OF that] by blast
  have s4: "directoryEnd fmt bytes \<le> length bytes
             \<longrightarrow> ReaderFrom fmt (Some bytes) =
                   (Some \<lparr>source = bytes,
                          firstResourceOffset = FirstResourceOffset (directoryHeader fmt bytes),
                          directory = directoryEntries fmt bytes, cache = Map.empty\<rparr>, None)"
    if "format_ok fmt" "resourceDirectoryFileOffsetPos fmt + 4 \<le> length bytes"
       "take (length (headerString fmt) + 1) bytes = headerString fmt @ [commentTerminator fmt]"
    using ReaderFrom_ok [OF that] by blast
  have c3: "snd (readAndVerifyHeader fmt
              (NewSectionReader bytes 0 (int (resourceDirectoryFileOffsetPos fmt) + 4))) = Some err
        \<longrightarrow> ReaderFrom fmt (Some bytes) = (None, Some err)"
    by (simp add: ReaderFrom_def split: prod.split)
  have c4: "readAndVerifyHeader fmt
          (NewSectionReader bytes 0 (int (resourceDirectoryFileOffsetPos fmt) + 4)) = (dirOffset, None)
        \<and> snd (snd (readDirectoryAt fmt dirOffset bytes)) = Some err
        \<longrightarrow> ReaderFrom fmt (Some bytes) = (None, Some err)"
    by (simp add: ReaderFrom_def split: prod.split)
  have c5: "ReaderFrom fmt src = (r, e) \<longrightarrow> (r = None) = (e \<noteq> None)"
    using ReaderFrom_cases [of fmt src r e] by blast
  from c1 c2 s1 s2 s3 s4 c3 c4 c5 show ?thesis by blast
qed

theorem ReaderFrom_atomic_witness:
  "ReaderFrom exampleFormat (Some ((exampleArchive 18)[1 := 0])) = (None, Some errFormatMismatch)
   \<and> ReaderFrom exampleFormat (Some [0x4C]) = (None, Some errFormatMismatch)
   \<and> ReaderFrom exampleFormat (Some (take 6 (exampleArchive 18))) = (None, Some ErrUnexpectedEOF)
   \<and> (\<exists>e. ReaderFrom exampleFormat (Some (take 7 (exampleArchive 18))) = (None, Some e))
   \<and> (\<exists>e. ReaderFrom exampleFormat (Some ((exampleArchive 18)[4 := 0xFF, 5 := 0xFF]))
              = (None, Some e))
   \<and> (\<exists>e. ReaderFrom exampleFormat (Some (take 85 (exampleArchive 18))) = (None, Some e))
   \<and> ReaderFrom exampleFormat (Some (take 80 (exampleArchive 18))) = (None, Some ErrUnexpectedEOF)
   \<and> ReaderFrom exampleFormat (Some (exampleArchive 18)) = (Some (exampleReader 18), None)
   \<and> (Some (exampleReader 18) = None) = ((None :: error option) \<noteq> None)"
proof -
  let ?F = exampleFormat
  have h1: "format_ok ?F
        \<and> (resourceDirectoryFileOffsetPos ?F \<le> length ((exampleArchive 18)[1 := 0])
             \<or> headerString ?F @ [commentTerminator ?F]
                 \<noteq> replicate (length (headerString ?F) + 1) 0)
        \<and> take (length (headerString ?F) + 1) ((exampleArchive 18)[1 := 0])
              \<noteq> headerString ?F @ [commentTerminator ?F]"
    by (simp add: format_ok_def exampleFormat_def exampleArchive_def)
  have m1: "ReaderFrom ?F (Some ((exampleArchive 18)[1 := 0])) = (None, Some errFormatMismatch)"
    using ReaderFrom_atomic [where fmt = ?F and bytes = "(exampleArchive 18)[1 := 0]"] h1
    by blast
  have h1': "format_ok ?F
        \<and> (resourceDirectoryFileOffsetPos ?F \<le> length [0x4C :: byte]
             \<or> headerString ?F @ [commentTerminator ?F]
                 \<noteq> replicate (length (headerString ?F) + 1) 0)
        \<and> take (length (headerString ?F) + 1) [0x4C :: byte]
              \<noteq> headerString ?F @ [commentTerminator ?F]"
    by (simp add: format_ok_def exampleFormat_def)
  have m1': "ReaderFrom ?F (Some [0x4C]) = (None, Some errFormatMismatch)"
    using ReaderFrom_atomic [where fmt = ?F and bytes = "[0x4C]"] h1'
    by blast
  have h2: "snd (readAndVerifyHeader ?F (NewSectionReader (take 6 (exampleArchive 18)) 0
                (int (resourceDirectoryFileOffsetPos ?F) + 4))) = Some ErrUnexpectedEOF"
    by (simp add: exampleFormat_def exampleArchive_def readAndVerifyHeader_def
        NewSectionReader_def NewDecoder_def Code_bytes_def Code_raw_def Code_uint32_def Let_def)
  have m2: "ReaderFrom ?F (Some (take 6 (exampleArchive 18))) = (None, Some ErrUnexpectedEOF)"
    using ReaderFrom_atomic [where fmt = ?F and bytes = "take 6 (exampleArchive 18)"
        and err = ErrUnexpectedEOF] h2
    by blast
  have h3: "readAndVerifyHeader ?F (NewSectionReader (take 80 (exampleArchive 18)) 0
                (int (resourceDirectoryFileOffsetPos ?F) + 4)) = (56, None)
        \<and> snd (snd (readDirectoryAt ?F 56 (take 80 (exampleArchive 18)))) = Some ErrUnexpectedEOF"
    by (simp add: exampleFormat_def exampleArchive_def readAndVerifyHeader_def readDirectoryAt_def
        NewSectionReader_def NewDecoder_def Code_bytes_def Code_raw_def Code_uint32_def Let_def)
  have m3: "ReaderFrom ?F (Some (take 80 (exampleArchive 18))) = (None, Some ErrUnexpectedEOF)"
    using ReaderFrom_atomic [where fmt = ?F and bytes = "take 80 (exampleArchive 18)"
        and err = ErrUnexpectedEOF and dirOffset = 56] h3
    by blast
  have t1: "length (take 7 (exampleArchive 18)) < resourceDirectoryFileOffsetPos ?F + 4"
    by (simp add: exampleFormat_def exampleArchive_def)
  have m5: "\<exists>e. ReaderFrom ?F (Some (take 7 (exampleArchive 18))) = (None, Some e)"
    using ReaderFrom_atomic [where fmt = ?F and bytes = "take 7 (exampleArchive 18)"] t1
    by blast
  let ?far = "(exampleArchive 18)[4 := 0xFF, 5 := 0xFF]"
  have far: "directoryOffset ?F ?far = 0xFFFF"
    by (simp add: directoryOffset_def exampleFormat_def exampleArchive_def)
  have t2: "format_ok ?F
        \<and> resourceDirectoryFileOffsetPos ?F + 4 \<le> length ?far
        \<and> take (length (headerString ?F) + 1) ?far = headerString ?F @ [commentTerminator ?F]"
    by (simp add: format_ok_def exampleFormat_def exampleArchive_def)
  have t2': "0 < dirHeaderSize ?F
             \<and> length ?far < unat (directoryOffset ?F ?far) + dirHeaderSize ?F"
    unfolding far by (simp add: exampleFormat_def exampleArchive_def)
  have m6: "\<exists>e. ReaderFrom ?F (Some ?far) = (None, Some e)"
    using ReaderFrom_atomic [where fmt = ?F and bytes = ?far] t2 t2'
    by blast
  let ?cut = "take 85 (exampleArchive 18)"
  have cut: "directoryOffset ?F ?cut = 56"
    by (simp add: directoryOffset_def exampleFormat_def exampleArchive_def)
  have t3: "format_ok ?F
        \<and> resourceDirectoryFileOffsetPos ?F + 4 \<le> length ?cut
        \<and> take (length (headerString ?F) + 1) ?cut = headerString ?F @ [commentTerminator ?F]"
    by (simp add: format_ok_def exampleFormat_def exampleArchive_def)
  have t3': "unat (directoryOffset ?F ?cut) + dirHeaderSize ?F \<le> length ?cut
             \<and> length ?cut < directoryEnd ?F ?cut"
    unfolding directoryEnd_def directoryHeader_def cut
    by (simp add: exampleFormat_def exampleArchive_def)
  have m7: "\<exists>e. ReaderFrom ?F (Some ?cut) = (None, Some e)"
    using ReaderFrom_atomic [where fmt = ?F and bytes = ?cut] t3 t3'
    by blast
  let ?A = "exampleArchive 18"
  have full: "directoryOffset ?F ?A = 56"
    by (simp add: directoryOffset_def exampleFormat_def exampleArchive_def)
  have t4: "format_ok ?F
        \<and> resourceDirectoryFileOffsetPos ?F + 4 \<le> length ?A
        \<and> take (length (headerString ?F) + 1) ?A = headerString ?F @ [commentTerminator ?F]"
    by (simp add: format_ok_def exampleFormat_def exampleArchive_def)
  have t4': "directoryEnd ?F ?A \<le> length ?A"
    unfolding directoryEnd_def directoryHeader_def full
    by (simp add: exampleFormat_def exampleArchive_def)
  have m8: "ReaderFrom ?F (Some ?A) =
                   (Some \<lparr>source = ?A,
                          firstResourceOffset = FirstResourceOffset (directoryHeader ?F ?A),
                          directory = directoryEntries ?F ?A, cache = Map.empty\<rparr>, None)"
    using ReaderFrom_atomic [where fmt = ?F and bytes = ?A] t4 t4'
    by blast
  have rd: "\<lparr>source = ?A, firstResourceOffset = FirstResourceOffset (directoryHeader ?F ?A),
             directory = directoryEntries ?F ?A, cache = Map.empty\<rparr> = exampleReader 18"
    unfolding directoryEntries_def directoryHeader_def full
    by (simp add: exampleFormat_def exampleArchive_def exampleReader_def exampleDirectory_def
        chunks_step)
  have h4: "ReaderFrom ?F (Some ?A) = (Some (exampleReader 18), None)"
    using m8 unfolding rd .
  have m4: "(Some (exampleReader 18) = None) = ((None :: error option) \<noteq> None)"
    using ReaderFrom_atomic [where fmt = ?F and src = "Some (exampleArchive 18)"
        and r = "Some (exampleReader 18)" and e = None] h4
    by blast
  show ?thesis using m1 m1' m2 m5 m6 m7 m3 h4 m4 by blast
qed

subsection \<open>Claims about blocks\<close>







subsection \<open>Claims about \<open>Write\<close>\<close>

text \<open>
  C9: when the entries before an identifier have been written without error and the
  provider's resource for the identifier is not compound and has a block count other
  than one, the loop of \<open>Write\<close> returns the wrong-number-of-blocks error with the
  writer exactly as the preceding entries left it: no writer operation is done for the
  resource, none for a later identifier, and \<open>Finish\<close> is not called. \<open>Write\<close> returns
  that result.
\<close>

theorem Write_rejects_wrong_block_count:
  assumes "Write_loop ops src before p wr = (None, p1, wr1)"
    and "provider_Resource src ident p1 = (Inr entry, p2)"
    and "\<not> Compound entry" and "BlockCount entry \<noteq> 1"
  shows "Write_loop ops src (before @ ident # rest) p wr
           = (Some (ErrWrongNumberOfBlocks ident), p2, wr1)
       \<and> (NewWriter ops target = (None, wr) \<and> provider_IDs src p = before @ ident # rest \<longrightarrow>
            Write ops src target p = (Some (ErrWrongNumberOfBlocks ident), p2, wr1))"
proof -
  have loop: "Write_loop ops src (before @ ident # rest) p wr
           = (Some (ErrWrongNumberOfBlocks ident), p2, wr1)"
    using assms by (simp add: Write_loop_append)
  then show ?thesis by (simp add: Write_def)
qed

theorem Write_rejects_wrong_block_count_witness:
  "Write recordingWriter exampleProvider [] ()
     = (Some (ErrWrongNumberOfBlocks 2), (), [EvCreateResource 1 7 False, EvCopy [5, 6]])"
proof -
  have cb: "copyBlocks (memBlocks False 7 False [ [5, 6] ]) (\<lambda>blockWriter. blockWriter)
              (Copy recordingWriter) [EvCreateResource 1 7 False]
            = (None, inState (memBlocks False 7 False [ [5, 6] ]) 1,
               [EvCreateResource 1 7 False, EvCopy [5, 6]])"
    by (simp add: copyBlocks_def memBlocks_def inState_def BlockCount_def Block_def recordingWriter_def)
  have before: "Write_loop recordingWriter exampleProvider [1] () []
                  = (None, (), [EvCreateResource 1 7 False, EvCopy [5, 6]])"
    using cb by (simp add: exampleProvider_def BlockCount_def memBlocks_def recordingWriter_def)
  have entry: "provider_Resource exampleProvider 2 () = (Inr (memBlocks False 7 False [ [1], [2] ]), ())"
    by (simp add: exampleProvider_def)
  have shape: "\<not> Compound (memBlocks False 7 False [ [1], [2] ])"
    "BlockCount (memBlocks False 7 False [ [1], [2] ]) \<noteq> 1"
    by (simp_all add: memBlocks_def BlockCount_def)
  have start: "NewWriter recordingWriter [] = (None, [])
      \<and> provider_IDs exampleProvider () = [1] @ 2 # []"
    by (simp add: recordingWriter_def exampleProvider_def)
  from Write_rejects_wrong_block_count [OF before entry shape, of "[]" "[]"] start
  show ?thesis by blast
qed

end
